theory Spec2Isabelle
  imports Main
begin

section \<open>JavaScript values\<close>

text \<open>
  A JavaScript string is a sequence of UTF-16 code units; a code unit is modelled as a
  natural number. \<open>js\<close> turns an Isabelle literal into such a string, so that the
  literals of the source can be written down: \<open>js ''id''\<close> is \<^verbatim>\<open>'id'\<close>.
\<close>

type_synonym jsstring = "nat list"

definition js :: "string \<Rightarrow> jsstring" where
  "js s = map of_char s"

text \<open>
  The values held by the documents of the record store and by the objects the program
  builds from them. A Number is a double; the program produces integer-valued ones and
  the two infinities only, \<open>JNum n\<close> being the double of value \<open>n\<close>. \<open>JTime\<close> is an instant in milliseconds (a store timestamp, or the \<^verbatim>\<open>Date\<close> that
  \<^verbatim>\<open>toDate()\<close> makes of it and that the store turns back into a timestamp when it is
  written). An object is a finite map from property names to values; a property that is
  absent reads as \<^verbatim>\<open>undefined\<close>, which is \<open>None\<close>.
\<close>

datatype jsval =
    JNull
  | JBool bool
  | JNum int
  | JInfinity
  | JNegInfinity
  | JStr jsstring
  | JTime nat
  | JArr "jsval list"
  | JObj "jsstring \<Rightarrow> jsval option"

type_synonym jsobj = "jsstring \<Rightarrow> jsval option"

text \<open>\<^verbatim>\<open>v === s\<close> for a property read \<open>v\<close> and a string \<open>s\<close>.\<close>

definition strict_eq_str :: "jsval option \<Rightarrow> jsstring \<Rightarrow> bool" where
  "strict_eq_str v s = (v = Some (JStr s))"

text \<open>
  Truthiness of a property read or a state variable (\<open>None\<close> is \<^verbatim>\<open>undefined\<close>):
  what \<^verbatim>\<open>!v\<close> and \<^verbatim>\<open>v ? a : b\<close> test.
\<close>

fun truthy :: "jsval option \<Rightarrow> bool" where
  "truthy None = False"
| "truthy (Some JNull) = False"
| "truthy (Some (JBool b)) = b"
| "truthy (Some (JNum n)) = (n \<noteq> 0)"
| "truthy (Some JInfinity) = True"
| "truthy (Some JNegInfinity) = True"
| "truthy (Some (JStr s)) = (s \<noteq> [])"
| "truthy (Some (JTime t)) = True"
| "truthy (Some (JArr xs)) = True"
| "truthy (Some (JObj f)) = True"

text \<open>
  Membership in a \<^verbatim>\<open>Set\<close> compares with SameValueZero: primitive values by value,
  objects (arrays, maps, timestamps) by identity. The model keeps no object identity;
  the compared values are read from different documents of the store, which are
  different objects, so two objects compare as different.
\<close>

definition same_value_zero :: "jsval option \<Rightarrow> jsval option \<Rightarrow> bool" where
  "same_value_zero a b =
     (case a of
        None \<Rightarrow> b = None
      | Some JNull \<Rightarrow> b = Some JNull
      | Some (JBool x) \<Rightarrow> b = Some (JBool x)
      | Some (JNum x) \<Rightarrow> b = Some (JNum x)
      | Some JInfinity \<Rightarrow> b = Some JInfinity
      | Some JNegInfinity \<Rightarrow> b = Some JNegInfinity
      | Some (JStr x) \<Rightarrow> b = Some (JStr x)
      | Some (JTime x) \<Rightarrow> False
      | Some (JArr x) \<Rightarrow> False
      | Some (JObj x) \<Rightarrow> False)"

text \<open>A document of a query snapshot: \<^verbatim>\<open>doc.id\<close> and \<^verbatim>\<open>doc.data()\<close>.\<close>

record qdoc =
  doc_id :: jsstring
  doc_data :: jsobj

section \<open>The pipeline join\<close>

text \<open>
  The callback of the pipeline subscription in \<^verbatim>\<open>App\<close>:
  \<^verbatim>\<open>
  const investorsInProject = pipelineSnap.docs.map(doc => {
      const pipelineData = doc.data();
      const masterData = masterInvestors.find(mi => mi.id === doc.id);
      if (!masterData) return null;
      return { id: doc.id, ...masterData, ...pipelineData };
  }).filter(Boolean);
  \<close>
  \<open>joinDoc\<close> is the function mapped over the documents (\<open>None\<close> is its \<^verbatim>\<open>null\<close>);
  an object spread after another overrides its properties, which is \<open>++\<close> on maps.
\<close>

definition joinDoc :: "jsobj list \<Rightarrow> qdoc \<Rightarrow> jsobj option" where
  "joinDoc masterInvestors d =
     (let pipelineData = doc_data d in
      case find (\<lambda>mi. strict_eq_str (mi (js ''id'')) (doc_id d)) masterInvestors of
        None \<Rightarrow> None
      | Some masterData \<Rightarrow>
          Some ([js ''id'' \<mapsto> JStr (doc_id d)] ++ masterData ++ pipelineData))"

definition pipelineJoin :: "jsobj list \<Rightarrow> qdoc list \<Rightarrow> jsobj list" where
  "pipelineJoin masterInvestors docs =
     map the (filter (\<lambda>r. r \<noteq> None) (map (joinDoc masterInvestors) docs))"

text \<open>A pipeline entry has a master investor when some master record carries its identifier.\<close>

definition has_master :: "jsobj list \<Rightarrow> qdoc \<Rightarrow> bool" where
  "has_master masterInvestors d =
     (\<exists>mi \<in> set masterInvestors. strict_eq_str (mi (js ''id'')) (doc_id d))"

section \<open>Strings of the bulk import\<close>

text \<open>
  The code units that \<^verbatim>\<open>String.prototype.trim\<close> and \<^verbatim>\<open>parseInt\<close> skip: the white
  space and line terminator code points of ECMAScript.
\<close>

definition js_white_space :: "nat \<Rightarrow> bool" where
  "js_white_space c \<longleftrightarrow>
     c \<in> {9, 10, 11, 12, 13, 32, 160, 5760, 8232, 8233, 8239, 8287, 12288, 65279}
     \<or> (8192 \<le> c \<and> c \<le> 8202)"

definition trim :: "jsstring \<Rightarrow> jsstring" where
  "trim s = rev (dropWhile js_white_space (rev (dropWhile js_white_space s)))"

text \<open>A text without the end of it on which \<open>P\<close> holds; \<open>trim\<close> drops both ends.\<close>

definition drop_end :: "('a \<Rightarrow> bool) \<Rightarrow> 'a list \<Rightarrow> 'a list" where
  "drop_end P s = rev (dropWhile P (rev s))"

text \<open>
  \<^verbatim>\<open>s.split(sep)\<close> for a separator of one code unit: the pieces between the
  separators, at least one piece (\<^verbatim>\<open>''.split(';')\<close> is \<^verbatim>\<open>['']\<close>).
\<close>

fun split_on :: "nat \<Rightarrow> jsstring \<Rightarrow> jsstring list" where
  "split_on sep [] = [[]]"
| "split_on sep (c # cs) =
     (if c = sep then [] # split_on sep cs
      else (case split_on sep cs of
              [] \<Rightarrow> [[c]]
            | piece # pieces \<Rightarrow> (c # piece) # pieces))"

text \<open>
  The double nearest to a natural number, ties to the even significand: a number below
  \<open>2 ^ 53\<close> is a double itself; a larger one keeps its 53 leading bits, rounded by
  the bits that are cut. \<open>None\<close> is the result beyond the largest finite double, an
  infinity. \<open>bitlen\<close> is the number of bits of a number.
\<close>

fun bitlen :: "nat \<Rightarrow> nat" where
  "bitlen n = (if n = 0 then 0 else Suc (bitlen (n div 2)))"

definition to_double :: "nat \<Rightarrow> nat option" where
  "to_double m =
     (if m < 2 ^ 53 then Some m
      else
        (let e = bitlen m - 53;
             q = m div 2 ^ e;
             r = m mod 2 ^ e;
             q' = (if 2 ^ e < 2 * r \<or> (2 * r = 2 ^ e \<and> odd q) then q + 1 else q);
             v = q' * 2 ^ e
         in if v < 2 ^ 1024 then Some v else None))"

text \<open>
  \<^verbatim>\<open>parseInt(v, 10)\<close>: the argument is turned into a string (\<^verbatim>\<open>undefined\<close> becomes
  \<^verbatim>\<open>'undefined'\<close>, which has no digit), leading white space is skipped, one sign is
  read, then the longest run of decimal digits; no digit gives \<^verbatim>\<open>NaN\<close>, here \<open>None\<close>.
  The result is the Number of the integer the digits denote: the nearest double, with
  the sign, or an infinity. (The standard also lets an engine read the digits after the
  twentieth as zeros; the engines in use round the exact integer.)
\<close>

definition is_digit :: "nat \<Rightarrow> bool" where
  "is_digit c \<longleftrightarrow> 48 \<le> c \<and> c \<le> 57"

definition digits_value :: "nat list \<Rightarrow> nat" where
  "digits_value ds = foldl (\<lambda>acc c. 10 * acc + (c - 48)) 0 ds"

definition parseInt10 :: "jsstring option \<Rightarrow> jsval option" where
  "parseInt10 v =
     (case v of
        None \<Rightarrow> None
      | Some s \<Rightarrow>
          (let t = dropWhile js_white_space s;
               sign = (if t \<noteq> [] \<and> hd t = 45 then - 1 else 1);
               body = (if t \<noteq> [] \<and> (hd t = 45 \<or> hd t = 43) then tl t else t);
               ds = takeWhile is_digit body
           in if ds = [] then None
              else (case to_double (digits_value ds) of
                      Some d \<Rightarrow> Some (JNum (sign * int d))
                    | None \<Rightarrow> Some (if sign < 0 then JNegInfinity else JInfinity))))"

text \<open>
  \<^verbatim>\<open>n || 0\<close> on a parsed number (\<^verbatim>\<open>NaN\<close> and zero are falsy) and \<^verbatim>\<open>v || ''\<close> on a
  string property.
\<close>

definition num_or_zero :: "jsval option \<Rightarrow> jsval" where
  "num_or_zero n = (case n of None \<Rightarrow> JNum 0 | Some k \<Rightarrow> if truthy (Some k) then k else JNum 0)"

definition str_or_empty :: "jsstring option \<Rightarrow> jsstring" where
  "str_or_empty v = (case v of None \<Rightarrow> [] | Some s \<Rightarrow> s)"

section \<open>The record store\<close>

text \<open>
  A document is addressed by its path; the store maps the paths of the existing
  documents to their data. \<^verbatim>\<open>collection\<close> and \<^verbatim>\<open>doc\<close> make a path of the segments
  they are given: a segment that is not a string makes them throw (\<open>None\<close>), an empty
  segment is left out, and they throw unless the number of segments that remain is odd
  for a collection and even for a document. Identifiers are document identifiers and
  hold no \<^verbatim>\<open>/\<close>, at which a segment would be cut.
\<close>

type_synonym path = "jsstring list"

type_synonym store = "path \<Rightarrow> jsobj option"

fun segment :: "jsval option \<Rightarrow> jsstring list option" where
  "segment (Some (JStr s)) = Some (if s = [] then [] else [s])"
| "segment _ = None"

definition path_of :: "bool \<Rightarrow> jsval option list \<Rightarrow> path option" where
  "path_of is_document segs =
     (case those (map segment segs) of
        None \<Rightarrow> None
      | Some pieces \<Rightarrow>
          if even (length (concat pieces)) = is_document then Some (concat pieces) else None)"

text \<open>
  The store's own operations, as the store documents them. A batch holds \<^verbatim>\<open>set\<close>
  operations; \<^verbatim>\<open>commit\<close> applies all of them or, when it is rejected, none (\<open>None\<close>:
  the promise rejects). \<^verbatim>\<open>updateDoc\<close> merges the given fields into an existing
  document and is rejected when the document does not exist. Whether the store accepts
  a write is the environment's choice, the flag \<open>ok\<close>.
\<close>

definition batch_commit :: "bool \<Rightarrow> (path \<times> jsobj) list \<Rightarrow> store \<Rightarrow> store option" where
  "batch_commit ok batch st =
     (if ok then Some (fold (\<lambda>(ref, data) s. s(ref \<mapsto> data)) batch st) else None)"

definition updateDoc :: "bool \<Rightarrow> path \<Rightarrow> jsobj \<Rightarrow> store \<Rightarrow> store option" where
  "updateDoc ok ref changes st =
     (case st ref of
        None \<Rightarrow> None
      | Some old \<Rightarrow> if ok then Some (st(ref \<mapsto> old ++ changes)) else None)"

text \<open>
  What a handler does besides returning: the calls it makes on the store and on the
  user interface, in order. The messages of \<^verbatim>\<open>showToast\<close>:
  \<^item> \<open>MsgPasteCsv\<close>: \<^verbatim>\<open>Por favor, cole os dados do seu CSV.\<close>
  \<^item> \<open>MsgImported n\<close>: \<^verbatim>\<open>${n} investidores importados com sucesso!\<close>
  \<^item> \<open>MsgImportFailed\<close>: \<^verbatim>\<open>Ocorreu um erro na importacao.\<close>
  \<^item> \<open>MsgAdded n\<close>: \<^verbatim>\<open>${n} investidor(es) adicionado(s) com sucesso!\<close>
  \<^item> \<open>MsgAddFailed\<close>: \<^verbatim>\<open>Falha ao adicionar investidores.\<close>
  \<^item> \<open>MsgInteractionAdded\<close>: \<^verbatim>\<open>Interacao adicionada com sucesso!\<close>
  \<^item> \<open>MsgInteractionFailed\<close>: \<^verbatim>\<open>Erro ao adicionar interacao.\<close>
\<close>

datatype message =
    MsgPasteCsv
  | MsgImported nat
  | MsgImportFailed
  | MsgAdded nat
  | MsgAddFailed
  | MsgInteractionAdded
  | MsgInteractionFailed

datatype toast_type = ToastSuccess | ToastError

datatype effect =
    ShowToast message toast_type
  | SetIsImporting bool
  | SetIsAdding bool
  | SetInteractionNotes jsstring
  | OnClose
  | BatchCommit "(path \<times> jsobj) list"
  | UpdateDoc path jsobj

section \<open>The bulk importer\<close>

text \<open>
  The header names that \<^verbatim>\<open>CsvImportModal\<close> recognises. Three of them hold letters
  beyond ASCII, written by their code units: c with cedilla is 231, a with tilde 227,
  e with acute 233.
\<close>

definition hClassificacao :: jsstring where
  "hClassificacao = js ''Classifica'' @ [231, 227] @ js ''o''"

definition hCreditoEquity :: jsstring where
  "hCreditoEquity = js ''Cr'' @ [233] @ js ''dito/Equity''"

text \<open>
  One data line becomes an object keyed by the header names:
  \<^verbatim>\<open>
  const values = line.trim().split(';');
  return headers.reduce((obj, header, index) => {
      obj[header] = values[index] ? values[index].trim() : ''; return obj; }, {});
  \<close>
  \<^verbatim>\<open>values[index]\<close> beyond the end of \<^verbatim>\<open>values\<close> is \<^verbatim>\<open>undefined\<close>, and falsy like
  the empty string. Of this object only the eleven recognised names are read.
\<close>

definition cell :: "jsstring list \<Rightarrow> nat \<Rightarrow> jsstring" where
  "cell values index =
     (if index < length values \<and> values ! index \<noteq> [] then trim (values ! index) else [])"

definition parse_line :: "jsstring list \<Rightarrow> jsstring \<Rightarrow> (jsstring \<Rightarrow> jsstring option)" where
  "parse_line headers line =
     (let values = split_on 59 (trim line)
      in fold (\<lambda>(header, index) obj. obj(header \<mapsto> cell values index))
           (zip headers [0 ..< length headers]) Map.empty)"

text \<open>
  The record written for one parsed line:
  \<^verbatim>\<open>
  const mappedData = {
      nomeFantasia: investorData['NomeFantasia'] || '', classificacao: ... || '',
      tipo: ..., setor: ..., creditoEquity: ..., nota: parseInt(investorData['Nota'], 10) || 0,
      justificativa: ..., email1: ..., email2: ..., telefone: ..., linkedin: ...,
      dataDeCriacao: new Date() };
  \<close>
\<close>

definition mappedData :: "(jsstring \<Rightarrow> jsstring option) \<Rightarrow> nat \<Rightarrow> jsobj" where
  "mappedData investorData date =
     [js ''nomeFantasia'' \<mapsto> JStr (str_or_empty (investorData (js ''NomeFantasia''))),
      js ''classificacao'' \<mapsto> JStr (str_or_empty (investorData hClassificacao)),
      js ''tipo'' \<mapsto> JStr (str_or_empty (investorData (js ''Tipo''))),
      js ''setor'' \<mapsto> JStr (str_or_empty (investorData (js ''Setor''))),
      js ''creditoEquity'' \<mapsto> JStr (str_or_empty (investorData hCreditoEquity)),
      js ''nota'' \<mapsto> num_or_zero (parseInt10 (investorData (js ''Nota''))),
      js ''justificativa'' \<mapsto> JStr (str_or_empty (investorData (js ''Justificativa''))),
      js ''email1'' \<mapsto> JStr (str_or_empty (investorData (js ''Email 1''))),
      js ''email2'' \<mapsto> JStr (str_or_empty (investorData (js ''Email 2''))),
      js ''telefone'' \<mapsto> JStr (str_or_empty (investorData (js ''Telefone''))),
      js ''linkedin'' \<mapsto> JStr (str_or_empty (investorData (js ''Linkedin''))),
      js ''dataDeCriacao'' \<mapsto> JTime date]"

text \<open>
  What the importer takes from its environment: the identifier that the \<open>i\<close>-th call of
  \<^verbatim>\<open>doc(investorsCollection)\<close> generates, the clock read by the \<open>i\<close>-th
  \<^verbatim>\<open>new Date()\<close>, and whether the store accepts the commit.
\<close>

record import_env =
  new_doc_id :: "nat \<Rightarrow> jsstring"
  clock :: "nat \<Rightarrow> nat"
  commit_ok :: bool

text \<open>
  \<^verbatim>\<open>CsvImportModal.handleImport\<close>. The blank test returns before anything else; the
  lines are parsed outside the \<^verbatim>\<open>try\<close>; inside it \<^verbatim>\<open>collection\<close> may throw, then
  every record is put into one batch and the batch is committed once. An exception
  inside the \<^verbatim>\<open>try\<close> ends in the error toast. A split has at least one piece, so
  \<^verbatim>\<open>lines.shift()\<close> always finds the header line and the case of no line does not arise.
\<close>

definition investorsCollection :: "jsstring \<Rightarrow> jsval option \<Rightarrow> path option" where
  "investorsCollection appId userId =
     path_of False
       [Some (JStr (js ''artifacts'')), Some (JStr appId), Some (JStr (js ''users'')),
        userId, Some (JStr (js ''investors''))]"

definition import_batch ::
  "import_env \<Rightarrow> path \<Rightarrow> (jsstring \<Rightarrow> jsstring option) list \<Rightarrow> (path \<times> jsobj) list" where
  "import_batch env coll investorsToImport =
     map (\<lambda>(i, investorData). (coll @ [new_doc_id env i], mappedData investorData (clock env i)))
       (zip [0 ..< length investorsToImport] investorsToImport)"

definition handleImport ::
  "import_env \<Rightarrow> jsstring \<Rightarrow> jsval option \<Rightarrow> jsstring \<Rightarrow> store \<Rightarrow> store \<times> effect list" where
  "handleImport env appId userId csvData st =
     (if trim csvData = [] then (st, [ShowToast MsgPasteCsv ToastError])
      else
        (case split_on 10 (trim csvData) of
           [] \<Rightarrow> (st, [SetIsImporting True])
         | first # lines \<Rightarrow>
             (let headers = map trim (split_on 59 (trim first));
                  investorsToImport = map (parse_line headers) lines
              in case investorsCollection appId userId of
                   None \<Rightarrow>
                     (st, [SetIsImporting True, ShowToast MsgImportFailed ToastError,
                           SetIsImporting False])
                 | Some coll \<Rightarrow>
                     (let batch = import_batch env coll investorsToImport
                      in case batch_commit (commit_ok env) batch st of
                           Some st' \<Rightarrow>
                             (st', [SetIsImporting True, BatchCommit batch,
                                    ShowToast (MsgImported (length investorsToImport)) ToastSuccess,
                                    OnClose, SetIsImporting False])
                         | None \<Rightarrow>
                             (st, [SetIsImporting True, BatchCommit batch,
                                   ShowToast MsgImportFailed ToastError,
                                   SetIsImporting False])))))"

text \<open>
  Names for what the importer is expected to produce. \<open>join_lines\<close> is the text made
  of the given lines, separated by line feeds. \<open>investorsPath\<close> is the path of the
  investors collection of a user, \<open>imported_path\<close> the path of the \<open>i\<close>-th record of an
  import and \<open>imported_record\<close> that record.
\<close>

fun join_lines :: "jsstring list \<Rightarrow> jsstring" where
  "join_lines [] = []"
| "join_lines [l] = l"
| "join_lines (l # ls) = l @ 10 # join_lines ls"

definition investorsPath :: "jsstring \<Rightarrow> jsstring \<Rightarrow> path" where
  "investorsPath appId uid = [js ''artifacts'', appId, js ''users'', uid, js ''investors'']"

definition imported_path :: "import_env \<Rightarrow> jsstring \<Rightarrow> jsstring \<Rightarrow> nat \<Rightarrow> path" where
  "imported_path env appId uid i = investorsPath appId uid @ [new_doc_id env i]"

definition imported_record :: "import_env \<Rightarrow> jsstring \<Rightarrow> jsstring list \<Rightarrow> nat \<Rightarrow> jsobj" where
  "imported_record env headerLine rows i =
     mappedData (parse_line (map trim (split_on 59 (trim headerLine))) (rows ! i)) (clock env i)"

text \<open>
  A data line described by what it says, apart from how the importer reads it. The line
  is a row of cells separated by semicolons; a cell is written as its content between
  two paddings of white space, and the content has no white space at either end and no
  semicolon. The value of the column named \<open>h\<close> is the content of the cell that stands
  under the header \<open>h\<close>, and the empty string when no header has that name or the row
  has no cell there.
\<close>

record padded_cell =
  pad_left :: jsstring
  content :: jsstring
  pad_right :: jsstring

definition written :: "padded_cell \<Rightarrow> jsstring" where
  "written c = pad_left c @ content c @ pad_right c"

definition blank :: "jsstring \<Rightarrow> bool" where
  "blank s = list_all js_white_space s"

definition clean :: "jsstring \<Rightarrow> bool" where
  "clean v = (case v of [] \<Rightarrow> True | c # _ \<Rightarrow> \<not> js_white_space c \<and> \<not> js_white_space (last v))"

definition well_written :: "padded_cell \<Rightarrow> bool" where
  "well_written c \<longleftrightarrow>
     blank (pad_left c) \<and> blank (pad_right c) \<and> clean (content c) \<and> 59 \<notin> set (content c)"

fun join_cells :: "jsstring list \<Rightarrow> jsstring" where
  "join_cells [] = []"
| "join_cells [c] = c"
| "join_cells (c # cs) = c @ 59 # join_cells cs"



definition digit_unit :: "nat \<Rightarrow> nat" where
  "digit_unit d = 48 + d"

fun no_number :: "jsstring \<Rightarrow> bool" where
  "no_number [] = True"
| "no_number [c] = (c < 48 \<or> 57 < c)"
| "no_number (c # d # _) =
     (if c = 43 \<or> c = 45 then d < 48 \<or> 57 < d else c < 48 \<or> 57 < c)"

section \<open>Adding investors to a pipeline\<close>

text \<open>
  The candidates offered by \<^verbatim>\<open>AddInvestorToProjectModal\<close>:
  \<^verbatim>\<open>
  const projectInvestorIds = new Set(projectInvestors.map(pi => pi.id));
  return masterInvestors.filter(mi =>
      !projectInvestorIds.has(mi.id) &&
      (classificationFilter === '' || mi.classificacao === classificationFilter) &&
      (sectorFilter === '' || mi.setor === sectorFilter));
  \<close>
\<close>

definition set_has :: "jsval option list \<Rightarrow> jsval option \<Rightarrow> bool" where
  "set_has elems v = list_ex (\<lambda>e. same_value_zero e v) elems"

definition availableInvestors ::
  "jsobj list \<Rightarrow> jsobj list \<Rightarrow> jsstring \<Rightarrow> jsstring \<Rightarrow> jsobj list" where
  "availableInvestors masterInvestors projectInvestors classificationFilter sectorFilter =
     (let projectInvestorIds = map (\<lambda>pi. pi (js ''id'')) projectInvestors
      in filter (\<lambda>mi.
           \<not> set_has projectInvestorIds (mi (js ''id'')) \<and>
           (classificationFilter = [] \<or>
              strict_eq_str (mi (js ''classificacao'')) classificationFilter) \<and>
           (sectorFilter = [] \<or> strict_eq_str (mi (js ''setor'')) sectorFilter))
         masterInvestors)"

text \<open>
  \<^verbatim>\<open>AddInvestorToProjectModal.handleAdd\<close>: nothing for an empty selection; otherwise one
  \<^verbatim>\<open>set\<close> per chosen identifier, at the path that ends in that identifier, all in one
  batch that is committed once. The status literal holds a with tilde, code unit 227.
\<close>

definition statusNaoContatado :: jsstring where
  "statusNaoContatado = js ''N'' @ [227] @ js ''o Contatado''"

definition newPipelineEntry :: jsobj where
  "newPipelineEntry =
     [js ''notaDePrioridade'' \<mapsto> JNum 3,
      js ''status'' \<mapsto> JStr statusNaoContatado,
      js ''historicoDeInteracoes'' \<mapsto> JArr []]"

definition pipelineRef ::
  "jsstring \<Rightarrow> jsval option \<Rightarrow> jsval option \<Rightarrow> jsval option \<Rightarrow> path option" where
  "pipelineRef appId userId selectedProjectId investorId =
     path_of True
       [Some (JStr (js ''artifacts'')), Some (JStr appId), Some (JStr (js ''users'')),
        userId, Some (JStr (js ''projects'')), selectedProjectId,
        Some (JStr (js ''pipeline'')), investorId]"

text \<open>The path of the pipeline entry of investor \<open>i\<close> in project \<open>pid\<close> of user \<open>uid\<close>.\<close>

definition pipelinePath :: "jsstring \<Rightarrow> jsstring \<Rightarrow> jsstring \<Rightarrow> jsstring \<Rightarrow> path" where
  "pipelinePath appId uid pid i =
     [js ''artifacts'', appId, js ''users'', uid, js ''projects'', pid, js ''pipeline'', i]"

definition handleAdd ::
  "bool \<Rightarrow> jsstring \<Rightarrow> jsval option \<Rightarrow> jsval option \<Rightarrow> jsval option list \<Rightarrow> store
     \<Rightarrow> store \<times> effect list" where
  "handleAdd ok appId userId selectedProjectId selectedInvestors st =
     (if selectedInvestors = [] then (st, [])
      else
        (case those (map (pipelineRef appId userId selectedProjectId) selectedInvestors) of
           None \<Rightarrow> (st, [SetIsAdding True, ShowToast MsgAddFailed ToastError, SetIsAdding False])
         | Some refs \<Rightarrow>
             (let batch = map (\<lambda>pipelineRef. (pipelineRef, newPipelineEntry)) refs
              in case batch_commit ok batch st of
                   Some st' \<Rightarrow>
                     (st', [SetIsAdding True, BatchCommit batch,
                            ShowToast (MsgAdded (length selectedInvestors)) ToastSuccess,
                            OnClose, SetIsAdding False])
                 | None \<Rightarrow>
                     (st, [SetIsAdding True, BatchCommit batch,
                           ShowToast MsgAddFailed ToastError, SetIsAdding False]))))"

section \<open>Interactions of a pipeline entry\<close>

text \<open>
  \<^verbatim>\<open>InvestorProfile.handleAddInteraction\<close>. The history that is written is computed
  from the \<^verbatim>\<open>investor\<close> property of the profile, not read from the store:
  \<^verbatim>\<open>
  if (!interactionNotes.trim() || !userId || !selectedProjectId || isMasterProfile) return;
  const newInteraction = { data: new Date(), tipo: interactionType, anotacoes: interactionNotes };
  try {
      const existingInteractions = investor.historicoDeInteracoes
          ? investor.historicoDeInteracoes.map(item => ({...item, data: item.data.toDate()})) : [];
      await updateDoc(doc(db, ..., 'pipeline', investor.id),
          { historicoDeInteracoes: [...existingInteractions, newInteraction] });
      setInteractionNotes(''); showToast(..., 'success');
  } catch (error) { ...; showToast(..., 'error'); }
  \<close>
  \<^verbatim>\<open>item.data.toDate()\<close> throws unless the item is an object whose \<^verbatim>\<open>data\<close> is a
  timestamp, and \<^verbatim>\<open>.map\<close> throws unless the history is an array (\<open>None\<close>).
\<close>

definition convertItem :: "jsval \<Rightarrow> jsval option" where
  "convertItem item =
     (case item of
        JObj fs \<Rightarrow>
          (case fs (js ''data'') of
             Some (JTime t) \<Rightarrow> Some (JObj (fs(js ''data'' \<mapsto> JTime t)))
           | _ \<Rightarrow> None)
      | _ \<Rightarrow> None)"

definition existingInteractions :: "jsval option \<Rightarrow> jsval list option" where
  "existingInteractions h =
     (if truthy h
      then (case h of Some (JArr items) \<Rightarrow> those (map convertItem items) | _ \<Rightarrow> None)
      else Some [])"

definition handleAddInteraction ::
  "bool \<Rightarrow> nat \<Rightarrow> jsstring \<Rightarrow> jsval option \<Rightarrow> jsval option \<Rightarrow> bool \<Rightarrow> jsobj
     \<Rightarrow> jsstring \<Rightarrow> jsstring \<Rightarrow> store \<Rightarrow> store \<times> effect list" where
  "handleAddInteraction ok date appId userId selectedProjectId isMasterProfile investor
       interactionType interactionNotes st =
     (if trim interactionNotes = [] \<or> \<not> truthy userId \<or> \<not> truthy selectedProjectId
         \<or> isMasterProfile
      then (st, [])
      else
        (let newInteraction =
               JObj [js ''data'' \<mapsto> JTime date, js ''tipo'' \<mapsto> JStr interactionType,
                     js ''anotacoes'' \<mapsto> JStr interactionNotes]
         in case existingInteractions (investor (js ''historicoDeInteracoes'')) of
              None \<Rightarrow> (st, [ShowToast MsgInteractionFailed ToastError])
            | Some existing \<Rightarrow>
                (case pipelineRef appId userId selectedProjectId (investor (js ''id'')) of
                   None \<Rightarrow> (st, [ShowToast MsgInteractionFailed ToastError])
                 | Some ref \<Rightarrow>
                     (let changes =
                            [js ''historicoDeInteracoes'' \<mapsto> JArr (existing @ [newInteraction])]
                      in case updateDoc ok ref changes st of
                           Some st' \<Rightarrow>
                             (st', [UpdateDoc ref changes, SetInteractionNotes [],
                                    ShowToast MsgInteractionAdded ToastSuccess])
                         | None \<Rightarrow>
                             (st, [UpdateDoc ref changes,
                                   ShowToast MsgInteractionFailed ToastError])))))"

text \<open>
  The history shown by the profile, most recent first:
  \<^verbatim>\<open>investor.historicoDeInteracoes && [...investor.historicoDeInteracoes].reverse().map(...)\<close>.
\<close>

definition displayedHistory :: "jsobj \<Rightarrow> jsval list" where
  "displayedHistory investor =
     (case investor (js ''historicoDeInteracoes'') of
        Some (JArr items) \<Rightarrow> rev items
      | _ \<Rightarrow> [])"

text \<open>The interaction history stored in the document at a path.\<close>

definition history_at :: "store \<Rightarrow> path \<Rightarrow> jsval option" where
  "history_at st ref =
     (case st ref of None \<Rightarrow> None | Some entry \<Rightarrow> entry (js ''historicoDeInteracoes''))"

section \<open>The state of the application\<close>

text \<open>
  The state variables of \<^verbatim>\<open>App\<close> that the subscriptions and the profile use. The
  callback of the projects subscription is created by an effect whose dependency list is
  \<^verbatim>\<open>[userId]\<close>: the effect runs when \<^verbatim>\<open>userId\<close> changes, and the callback it
  registers reads the \<^verbatim>\<open>selectedProjectId\<close> of the render in which the effect ran.
  \<open>projectsSubscription\<close> is \<open>None\<close> when no subscription is open, and otherwise holds
  that value.
\<close>

record app_state =
  userId :: "jsval option"
  projects :: "jsobj list"
  selectedProjectId :: "jsval option"
  masterInvestors :: "jsobj list"
  projectInvestors :: "jsobj list"
  selectedInvestor :: "jsobj option"
  isMasterProfile :: bool
  projectsSubscription :: "jsval option option"

definition initial_state :: app_state where
  "initial_state =
     \<lparr>userId = Some JNull, projects = [], selectedProjectId = Some JNull,
      masterInvestors = [], projectInvestors = [], selectedInvestor = None,
      isMasterProfile = False, projectsSubscription = None\<rparr>"

text \<open>\<^verbatim>\<open>snap.docs.map(doc => ({ id: doc.id, ...doc.data() }))\<close>\<close>

definition fromDoc :: "qdoc \<Rightarrow> jsobj" where
  "fromDoc d = [js ''id'' \<mapsto> JStr (doc_id d)] ++ doc_data d"

text \<open>
  The effect of the pipeline subscription depends on \<^verbatim>\<open>selectedProjectId\<close>,
  \<^verbatim>\<open>userId\<close> and \<^verbatim>\<open>masterInvestors\<close> and runs again when one of them changes.
  Before it subscribes it empties the list when there is no project or no user:
  \<^verbatim>\<open>if (!selectedProjectId || !userId) { setProjectInvestors([]); return; }\<close>
  What its subscription delivers later is \<open>onPipelineSnapshot\<close> below.
\<close>

definition pipelineEffect :: "app_state \<Rightarrow> app_state" where
  "pipelineEffect s =
     (if \<not> truthy (selectedProjectId s) \<or> \<not> truthy (userId s)
      then s\<lparr>projectInvestors := []\<rparr> else s)"

text \<open>
  \<^verbatim>\<open>setSelectedProjectId(v)\<close>: a value equal to the current one changes nothing; another
  one is stored, and the pipeline effect runs.
\<close>

definition setSelectedProjectId :: "jsval option \<Rightarrow> app_state \<Rightarrow> app_state" where
  "setSelectedProjectId v s =
     (if v = selectedProjectId s then s else pipelineEffect (s\<lparr>selectedProjectId := v\<rparr>))"

text \<open>
  The session changes (\<^verbatim>\<open>onAuthStateChanged\<close> sets \<^verbatim>\<open>userId\<close>) and the effects with
  the dependency \<^verbatim>\<open>userId\<close> run again when the value differs: signed out, the lists
  are emptied and no subscription stays open; signed in, the projects are subscribed to.
\<close>

definition onAuthStateChanged :: "jsval option \<Rightarrow> app_state \<Rightarrow> app_state" where
  "onAuthStateChanged user s =
     (if user = userId s then s
      else if \<not> truthy user
        then pipelineEffect
               (s\<lparr>userId := user, projects := [], masterInvestors := [],
                  projectsSubscription := None\<rparr>)
        else pipelineEffect
               (s\<lparr>userId := user, projectsSubscription := Some (selectedProjectId s)\<rparr>))"

text \<open>
  The callback of the projects subscription; \<open>closureSelectedProjectId\<close> is the
  \<^verbatim>\<open>selectedProjectId\<close> it reads:
  \<^verbatim>\<open>
  const data = snap.docs.map(doc => ({ id: doc.id, ...doc.data() }));
  setProjects(data);
  // Define o primeiro projeto como selecionado se nenhum estiver
  if (data.length > 0 && !selectedProjectId) { setSelectedProjectId(data[0].id); }
  else if (data.length === 0) { setSelectedProjectId(null); }
  \<close>
\<close>

definition projectsCallback :: "jsval option \<Rightarrow> qdoc list \<Rightarrow> app_state \<Rightarrow> app_state" where
  "projectsCallback closureSelectedProjectId docs s =
     (let data = map fromDoc docs;
          s1 = s\<lparr>projects := data\<rparr>
      in if data \<noteq> [] \<and> \<not> truthy closureSelectedProjectId
         then setSelectedProjectId ((hd data) (js ''id'')) s1
         else if data = [] then setSelectedProjectId (Some JNull) s1
         else s1)"

definition onProjectsSnapshot :: "qdoc list \<Rightarrow> app_state \<Rightarrow> app_state" where
  "onProjectsSnapshot docs s =
     (case projectsSubscription s of
        None \<Rightarrow> s
      | Some closureSelectedProjectId \<Rightarrow> projectsCallback closureSelectedProjectId docs s)"

text \<open>The user picks a project in \<^verbatim>\<open>ProjectSelector\<close>: \<^verbatim>\<open>setSelectedProjectId(project.id)\<close>.\<close>

definition selectProject :: "jsobj \<Rightarrow> app_state \<Rightarrow> app_state" where
  "selectProject project s = setSelectedProjectId (project (js ''id'')) s"

text \<open>
  The callback of the pipeline subscription stores the joined list, and nothing else;
  \<^verbatim>\<open>handleSelectInvestor\<close> is the only place that gives the profile an investor.
\<close>

definition onPipelineSnapshot :: "qdoc list \<Rightarrow> app_state \<Rightarrow> app_state" where
  "onPipelineSnapshot docs s = s\<lparr>projectInvestors := pipelineJoin (masterInvestors s) docs\<rparr>"

definition handleSelectInvestor :: "jsobj \<Rightarrow> bool \<Rightarrow> app_state \<Rightarrow> app_state" where
  "handleSelectInvestor investor isMaster s =
     s\<lparr>selectedInvestor := Some investor, isMasterProfile := isMaster\<rparr>"

text \<open>
  The form of the open profile is submitted: \<^verbatim>\<open>handleAddInteraction\<close> runs with the
  state of the application as its context and \<^verbatim>\<open>selectedInvestor\<close> as its investor.
\<close>

definition submitInteraction ::
  "bool \<Rightarrow> nat \<Rightarrow> jsstring \<Rightarrow> jsstring \<Rightarrow> jsstring \<Rightarrow> app_state \<Rightarrow> store
     \<Rightarrow> store \<times> effect list" where
  "submitInteraction ok date appId interactionType interactionNotes s st =
     (case selectedInvestor s of
        None \<Rightarrow> (st, [])
      | Some investor \<Rightarrow>
          handleAddInteraction ok date appId (userId s) (selectedProjectId s)
            (isMasterProfile s) investor interactionType interactionNotes st)"

section \<open>Example data\<close>

text \<open>Concrete records on which the theorems below are exercised.\<close>

definition ex_master :: jsobj where
  "ex_master = [js ''id'' \<mapsto> JStr (js ''i1''), js ''status'' \<mapsto> JStr (js ''old'')]"

definition ex_entry1 :: qdoc where
  "ex_entry1 = \<lparr>doc_id = js ''i1'', doc_data = [js ''status'' \<mapsto> JStr (js ''new'')]\<rparr>"

definition ex_entry2 :: qdoc where
  "ex_entry2 = \<lparr>doc_id = js ''i2'', doc_data = [js ''status'' \<mapsto> JStr (js ''new'')]\<rparr>"

definition ex_vc :: jsobj where
  "ex_vc = [js ''id'' \<mapsto> JStr (js ''i1''), js ''classificacao'' \<mapsto> JStr (js ''VC'')]"

definition ex_vc2 :: jsobj where
  "ex_vc2 = [js ''id'' \<mapsto> JStr (js ''i2''), js ''classificacao'' \<mapsto> JStr (js ''VC'')]"

definition ex_pe :: jsobj where
  "ex_pe = [js ''id'' \<mapsto> JStr (js ''i3''), js ''classificacao'' \<mapsto> JStr (js ''PE'')]"

definition ex_store :: store where
  "ex_store =
     [pipelinePath (js ''app'') (js ''u1'') (js ''p1'') (js ''i1'') \<mapsto>
        [js ''notaDePrioridade'' \<mapsto> JNum 5, js ''status'' \<mapsto> JStr (js ''Contatado''),
         js ''historicoDeInteracoes'' \<mapsto> JArr []]]"

definition ex_env :: import_env where
  "ex_env = \<lparr>new_doc_id = (\<lambda>i. replicate (Suc i) 120), clock = (\<lambda>i. 1000 + i), commit_ok = True\<rparr>"


definition ex_empty_store :: store where
  "ex_empty_store = Map.empty"

definition ex_csv :: jsstring where
  "ex_csv = js ''NomeFantasia;Nota'' @ [10] @ js ''Acme;5'' @ [10] @ js ''Beta;x'' @ [10]"

text \<open>
  A session on the projects view: the user signs in, a snapshot with two projects
  arrives, the user picks the second project, and the same snapshot arrives again.
\<close>

definition ex_project1 :: qdoc where
  "ex_project1 = \<lparr>doc_id = js ''p1'', doc_data = [js ''name'' \<mapsto> JStr (js ''Alpha'')]\<rparr>"

definition ex_project2 :: qdoc where
  "ex_project2 = \<lparr>doc_id = js ''p2'', doc_data = [js ''name'' \<mapsto> JStr (js ''Beta'')]\<rparr>"

definition ex_signed_in :: app_state where
  "ex_signed_in = onAuthStateChanged (Some (JStr (js ''u1''))) initial_state"

definition ex_first_snapshot :: app_state where
  "ex_first_snapshot = onProjectsSnapshot [ex_project1, ex_project2] ex_signed_in"

definition ex_second_selected :: app_state where
  "ex_second_selected = selectProject (fromDoc ex_project2) ex_first_snapshot"

definition ex_next_snapshot :: app_state where
  "ex_next_snapshot = onProjectsSnapshot [ex_project1, ex_project2] ex_second_selected"

text \<open>
  A session on a profile: investor \<^verbatim>\<open>i1\<close> is in the pipeline of project \<^verbatim>\<open>p1\<close> with an
  empty history; the pipeline snapshot arrives, the user opens the first investor of the
  list and submits an interaction; the snapshot of the changed pipeline arrives and the
  user submits a second interaction.
\<close>

definition ex_entry_path :: path where
  "ex_entry_path = pipelinePath (js ''app'') (js ''u1'') (js ''p1'') (js ''i1'')"

definition ex_pipeline_store :: store where
  "ex_pipeline_store = [ex_entry_path \<mapsto> newPipelineEntry]"

definition ex_pipeline_snapshot :: "store \<Rightarrow> qdoc list" where
  "ex_pipeline_snapshot st =
     (case st ex_entry_path of
        None \<Rightarrow> []
      | Some entry \<Rightarrow> [\<lparr>doc_id = js ''i1'', doc_data = entry\<rparr>])"

definition ex_open_first :: "app_state \<Rightarrow> app_state" where
  "ex_open_first s =
     (case projectInvestors s of
        [] \<Rightarrow> s
      | investor # _ \<Rightarrow> handleSelectInvestor investor False s)"

definition ex_project_open :: app_state where
  "ex_project_open =
     initial_state\<lparr>userId := Some (JStr (js ''u1'')), selectedProjectId := Some (JStr (js ''p1'')),
                   masterInvestors := [ex_master]\<rparr>"

definition ex_profile_open :: app_state where
  "ex_profile_open =
     ex_open_first (onPipelineSnapshot (ex_pipeline_snapshot ex_pipeline_store) ex_project_open)"

definition ex_after_first :: store where
  "ex_after_first =
     fst (submitInteraction True 1000 (js ''app'') (js ''Email'') (js ''first'')
            ex_profile_open ex_pipeline_store)"

definition ex_profile_refreshed :: app_state where
  "ex_profile_refreshed = onPipelineSnapshot (ex_pipeline_snapshot ex_after_first) ex_profile_open"

definition ex_after_second :: store where
  "ex_after_second =
     fst (submitInteraction True 2000 (js ''app'') (js ''Email'') (js ''second'')
            ex_profile_refreshed ex_after_first)"

definition ex_interaction1 :: jsval where
  "ex_interaction1 =
     JObj [js ''data'' \<mapsto> JTime 1000, js ''tipo'' \<mapsto> JStr (js ''Email''),
           js ''anotacoes'' \<mapsto> JStr (js ''first'')]"

definition ex_interaction2 :: jsval where
  "ex_interaction2 =
     JObj [js ''data'' \<mapsto> JTime 2000, js ''tipo'' \<mapsto> JStr (js ''Email''),
           js ''anotacoes'' \<mapsto> JStr (js ''second'')]"



section \<open>Properties of strings and paths\<close>

lemma trim_Nil_iff: "trim s = [] \<longleftrightarrow> (\<forall>c \<in> set s. js_white_space c)"
proof -
  have "trim s = [] \<longleftrightarrow> dropWhile js_white_space (rev (dropWhile js_white_space s)) = []"
    by (simp add: trim_def)
  also have "\<dots> \<longleftrightarrow> (\<forall>c \<in> set (dropWhile js_white_space s). js_white_space c)"
    by (simp add: dropWhile_eq_Nil_conv)
  also have "\<dots> \<longleftrightarrow> dropWhile js_white_space s = []"
  proof
    assume a: "\<forall>c \<in> set (dropWhile js_white_space s). js_white_space c"
    show "dropWhile js_white_space s = []"
    proof (rule ccontr)
      assume n: "dropWhile js_white_space s \<noteq> []"
      then have "\<not> js_white_space (hd (dropWhile js_white_space s))"
        by (rule hd_dropWhile)
      moreover have "hd (dropWhile js_white_space s) \<in> set (dropWhile js_white_space s)"
        using n by simp
      ultimately show False using a by blast
    qed
  next
    assume e: "dropWhile js_white_space s = []"
    show "\<forall>c \<in> set (dropWhile js_white_space s). js_white_space c"
      unfolding e by simp
  qed
  also have "\<dots> \<longleftrightarrow> (\<forall>c \<in> set s. js_white_space c)"
    by (simp add: dropWhile_eq_Nil_conv)
  finally show ?thesis .
qed

lemma js_nonempty [simp]: "js (c # cs) \<noteq> []"
  by (simp add: js_def)

lemma those_map_Some:
  "(\<And>x. x \<in> set xs \<Longrightarrow> f x = Some (g x)) \<Longrightarrow> those (map f xs) = Some (map g xs)"
  by (induction xs) simp_all

lemma pipelineRef_strings:
  assumes "appId \<noteq> []" "uid \<noteq> []" "pid \<noteq> []" "i \<noteq> []"
  shows "pipelineRef appId (Some (JStr uid)) (Some (JStr pid)) (Some (JStr i)) =
           Some (pipelinePath appId uid pid i)"
  using assms by (simp add: pipelineRef_def path_of_def pipelinePath_def)

lemma fold_set_same:
  "fold (\<lambda>(ref, data) s. s(ref \<mapsto> data)) (map (\<lambda>r. (r, e)) refs) st =
     (\<lambda>p. if p \<in> set refs then Some e else st p)"
proof (induction refs arbitrary: st)
  case Nil
  show ?case by simp
next
  case (Cons r refs)
  have "fold (\<lambda>(ref, data) s. s(ref \<mapsto> data)) (map (\<lambda>r. (r, e)) (r # refs)) st =
          fold (\<lambda>(ref, data) s. s(ref \<mapsto> data)) (map (\<lambda>r. (r, e)) refs) (st(r \<mapsto> e))"
    by simp
  also have "\<dots> = (\<lambda>p. if p \<in> set refs then Some e else (st(r \<mapsto> e)) p)"
    by (rule Cons.IH)
  also have "\<dots> = (\<lambda>p. if p \<in> set (r # refs) then Some e else st p)"
    by (rule ext) simp
  finally show ?case .
qed

lemma pipelinePath_inj: "pipelinePath appId uid pid i = pipelinePath appId uid pid j \<longleftrightarrow> i = j"
  by (simp add: pipelinePath_def)

lemma trim_Nil [simp]: "trim [] = []"
  by (simp add: trim_def)

lemma split_on_not_Nil [simp]: "split_on sep s \<noteq> []"
  by (induction s) (auto split: list.splits)

lemma split_on_no_sep: "sep \<notin> set s \<Longrightarrow> split_on sep s = [s]"
  by (induction s) auto

lemma split_on_append_sep:
  "sep \<notin> set l \<Longrightarrow> split_on sep (l @ sep # rest) = l # split_on sep rest"
  by (induction l) auto

lemma split_on_join_lines:
  "ls \<noteq> [] \<Longrightarrow> \<forall>l \<in> set ls. 10 \<notin> set l \<Longrightarrow> split_on 10 (join_lines ls) = ls"
proof (induction ls rule: join_lines.induct)
  case 1
  then show ?case by simp
next
  case (2 l)
  then show ?case by (simp add: split_on_no_sep)
next
  case (3 l v va)
  then show ?case by (simp add: split_on_append_sep)
qed

text \<open>Trimming a text before it is split changes the end pieces only, and no trimmed piece.\<close>

lemma trim_drop_end: "trim s = drop_end js_white_space (dropWhile js_white_space s)"
  by (simp add: trim_def drop_end_def)



lemma drop_end_keep:
  assumes "\<not> (\<forall>x \<in> set (c # cs). P x)"
  shows "drop_end P (c # cs) = c # drop_end P cs"
proof (cases "\<forall>x \<in> set cs. P x")
  case True
  with assms have "\<not> P c" by simp
  with True show ?thesis by (simp add: drop_end_def dropWhile_append)
next
  case False
  then have "\<not> (\<forall>x \<in> set (rev cs). P x)" by simp
  then have "dropWhile P (rev cs @ [c]) = dropWhile P (rev cs) @ [c]"
    by (simp only: dropWhile_append if_False)
  then show ?thesis by (simp add: drop_end_def)
qed










section \<open>Properties of the pipeline join\<close>

lemma find_SomeD: "find P xs = Some x \<Longrightarrow> x \<in> set xs \<and> P x"
  by (induction xs) (auto split: if_splits)

lemma find_is_Some: "\<exists>x\<in>set xs. P x \<Longrightarrow> \<exists>y. find P xs = Some y"
  by (induction xs) auto

lemma joinDoc_None_iff: "joinDoc ms d = None \<longleftrightarrow> \<not> has_master ms d"
proof
  assume "joinDoc ms d = None"
  then have "find (\<lambda>mi. strict_eq_str (mi (js ''id'')) (doc_id d)) ms = None"
    by (simp add: joinDoc_def split: option.splits)
  then show "\<not> has_master ms d"
    by (simp add: has_master_def find_None_iff)
next
  assume "\<not> has_master ms d"
  then have "find (\<lambda>mi. strict_eq_str (mi (js ''id'')) (doc_id d)) ms = None"
    by (simp add: has_master_def find_None_iff)
  then show "joinDoc ms d = None"
    by (simp add: joinDoc_def)
qed

lemma joinDoc_Some:
  assumes "has_master ms d"
  shows "\<exists>mi \<in> set ms. strict_eq_str (mi (js ''id'')) (doc_id d) \<and>
           joinDoc ms d = Some ([js ''id'' \<mapsto> JStr (doc_id d)] ++ mi ++ doc_data d)"
proof -
  from assms obtain mi
    where f: "find (\<lambda>mi. strict_eq_str (mi (js ''id'')) (doc_id d)) ms = Some mi"
    using find_is_Some [of ms "\<lambda>mi. strict_eq_str (mi (js ''id'')) (doc_id d)"]
    by (auto simp: has_master_def)
  from find_SomeD [OF f] have "mi \<in> set ms" "strict_eq_str (mi (js ''id'')) (doc_id d)"
    by simp_all
  moreover from f have "joinDoc ms d = Some ([js ''id'' \<mapsto> JStr (doc_id d)] ++ mi ++ doc_data d)"
    by (simp add: joinDoc_def)
  ultimately show ?thesis by blast
qed

lemma pipelineJoin_Nil: "pipelineJoin ms [] = []"
  by (simp add: pipelineJoin_def)

lemma pipelineJoin_Cons:
  "pipelineJoin ms (d # ds) =
     (case joinDoc ms d of None \<Rightarrow> pipelineJoin ms ds | Some r \<Rightarrow> r # pipelineJoin ms ds)"
  by (simp add: pipelineJoin_def split: option.splits)

lemma joinDoc_in_pipelineJoin:
  "d \<in> set docs \<Longrightarrow> joinDoc ms d = Some r \<Longrightarrow> r \<in> set (pipelineJoin ms docs)"
  by (induction docs) (auto simp: pipelineJoin_Cons split: option.splits)

text \<open>
  Claim C2. The joined list holds, in order, one record for each pipeline entry whose
  identifier is the identifier of some master investor, built from such a master record
  and the entry; an entry with no master record contributes nothing. The join is a total
  function: it has no failing case.
\<close>

theorem pipelineJoin_matching_entries:
  "list_all2
     (\<lambda>d r. \<exists>mi \<in> set ms. strict_eq_str (mi (js ''id'')) (doc_id d) \<and>
               r = [js ''id'' \<mapsto> JStr (doc_id d)] ++ mi ++ doc_data d)
     (filter (has_master ms) docs) (pipelineJoin ms docs)"
proof (induction docs)
  case Nil
  show ?case by (simp add: pipelineJoin_Nil)
next
  case (Cons d docs)
  show ?case
  proof (cases "has_master ms d")
    case False
    then have "joinDoc ms d = None" by (simp add: joinDoc_None_iff)
    with False Cons show ?thesis by (simp add: pipelineJoin_Cons)
  next
    case True
    from joinDoc_Some [OF True] obtain mi where
      mi: "mi \<in> set ms" "strict_eq_str (mi (js ''id'')) (doc_id d)"
        "joinDoc ms d = Some ([js ''id'' \<mapsto> JStr (doc_id d)] ++ mi ++ doc_data d)"
      by blast
    let ?r = "[js ''id'' \<mapsto> JStr (doc_id d)] ++ mi ++ doc_data d"
    have eq1: "pipelineJoin ms (d # docs) = ?r # pipelineJoin ms docs"
      using mi(3) by (simp add: pipelineJoin_Cons)
    have eq2: "filter (has_master ms) (d # docs) = d # filter (has_master ms) docs"
      using True by simp
    have head: "\<exists>mi \<in> set ms. strict_eq_str (mi (js ''id'')) (doc_id d) \<and>
               ?r = [js ''id'' \<mapsto> JStr (doc_id d)] ++ mi ++ doc_data d"
      using mi(1,2) by blast
    show ?thesis
      unfolding eq1 eq2 using head Cons by (simp only: list_all2_Cons simp_thms)
  qed
qed

lemma ex_entry1_has_master: "has_master [ex_master] ex_entry1"
  by (simp add: has_master_def ex_master_def ex_entry1_def strict_eq_str_def js_def)
lemma ex_entry2_no_master: "\<not> has_master [ex_master] ex_entry2"
  by (simp add: has_master_def ex_master_def ex_entry2_def strict_eq_str_def js_def)

theorem pipelineJoin_matching_entries_witness:
  "pipelineJoin [ex_master] [ex_entry1, ex_entry2] =
     [[js ''id'' \<mapsto> JStr (js ''i1'')] ++ ex_master ++ doc_data ex_entry1]"
  using pipelineJoin_matching_entries [of "[ex_master]" "[ex_entry1, ex_entry2]"] ex_entry1_has_master ex_entry2_no_master
  by (auto simp: list_all2_Cons1 ex_entry1_def)

text \<open>
  Claim C3. When a master investor is found for a pipeline entry, the joined list holds
  the merged record: its fields are the fields of the master record together with those
  of the entry, a field of the entry has the entry's value (also when the master record
  has a field of that name), and every other field has the master record's value.
\<close>

theorem merged_record_fields:
  assumes "find (\<lambda>mi. strict_eq_str (mi (js ''id'')) (doc_id d)) ms = Some mi"
    and "d \<in> set docs"
  shows "\<exists>r \<in> set (pipelineJoin ms docs).
           joinDoc ms d = Some r \<and>
           dom r = dom mi \<union> dom (doc_data d) \<and>
           (\<forall>k v. doc_data d k = Some v \<longrightarrow> r k = Some v) \<and>
           (\<forall>k. doc_data d k = None \<longrightarrow> r k = mi k)"
proof -
  let ?r = "[js ''id'' \<mapsto> JStr (doc_id d)] ++ mi ++ doc_data d"
  have j: "joinDoc ms d = Some ?r"
    using assms(1) by (simp add: joinDoc_def)
  have idm: "mi (js ''id'') = Some (JStr (doc_id d))"
    using find_SomeD [OF assms(1)] by (simp add: strict_eq_str_def)
  have "dom ?r = dom mi \<union> dom (doc_data d)"
    using idm by auto
  moreover have "\<forall>k v. doc_data d k = Some v \<longrightarrow> ?r k = Some v"
    by (simp add: map_add_def)
  moreover have "\<forall>k. doc_data d k = None \<longrightarrow> ?r k = mi k"
    using idm by (auto simp: map_add_def split: option.splits)
  moreover have "?r \<in> set (pipelineJoin ms docs)"
    using joinDoc_in_pipelineJoin [OF assms(2) j] .
  ultimately show ?thesis using j by blast
qed

lemma ex_joined:
  "pipelineJoin [ex_master] [ex_entry1, ex_entry2] =
     [[js ''id'' \<mapsto> JStr (js ''i1'')] ++ ex_master ++ doc_data ex_entry1]"
proof -
  have 1: "joinDoc [ex_master] ex_entry2 = None"
    using ex_entry2_no_master by (simp add: joinDoc_None_iff)
  from joinDoc_Some [OF ex_entry1_has_master]
  have 2: "joinDoc [ex_master] ex_entry1 =
             Some ([js ''id'' \<mapsto> JStr (js ''i1'')] ++ ex_master ++ doc_data ex_entry1)"
    by (simp add: ex_entry1_def)
  show ?thesis by (simp add: pipelineJoin_Cons pipelineJoin_Nil 1 2)
qed

theorem merged_record_fields_witness:
  "dom (hd (pipelineJoin [ex_master] [ex_entry1, ex_entry2])) = {js ''id'', js ''status''}
   \<and> hd (pipelineJoin [ex_master] [ex_entry1, ex_entry2]) (js ''status'') = Some (JStr (js ''new''))
   \<and> hd (pipelineJoin [ex_master] [ex_entry1, ex_entry2]) (js ''id'') = Some (JStr (js ''i1''))"
proof -
  have f: "find (\<lambda>mi. strict_eq_str (mi (js ''id'')) (doc_id ex_entry1)) [ex_master] = Some ex_master"
    using ex_entry1_has_master by (simp add: has_master_def)
  have m: "ex_entry1 \<in> set [ex_entry1, ex_entry2]" by simp
  from merged_record_fields [OF f m] obtain r where
    r: "r \<in> set (pipelineJoin [ex_master] [ex_entry1, ex_entry2])"
      "dom r = dom ex_master \<union> dom (doc_data ex_entry1)"
      "\<forall>k v. doc_data ex_entry1 k = Some v \<longrightarrow> r k = Some v"
      "\<forall>k. doc_data ex_entry1 k = None \<longrightarrow> r k = ex_master k"
    by blast
  from r(1) have h: "hd (pipelineJoin [ex_master] [ex_entry1, ex_entry2]) = r"
    unfolding ex_joined by simp
  have "dom r = {js ''id'', js ''status''}"
    using r(2) by (auto simp: ex_master_def ex_entry1_def)
  moreover have "r (js ''status'') = Some (JStr (js ''new''))"
    using r(3) by (simp add: ex_entry1_def)
  moreover have "r (js ''id'') = Some (JStr (js ''i1''))"
    using r(4) by (simp add: ex_entry1_def ex_master_def js_def)
  ultimately show ?thesis unfolding h by blast
qed

section \<open>Properties of the candidate list\<close>

lemma set_has_iff: "set_has es v \<longleftrightarrow> (\<exists>e \<in> set es. same_value_zero e v)"
  by (simp add: set_has_def list_ex_iff)

lemma same_value_zero_str:
  "same_value_zero e (Some (JStr i)) \<longleftrightarrow> e = Some (JStr i)"
  by (auto simp: same_value_zero_def split: option.splits jsval.splits)

lemma same_value_zero_str_left:
  "same_value_zero (Some (JStr i)) v \<longleftrightarrow> v = Some (JStr i)"
  by (auto simp: same_value_zero_def)

text \<open>
  Claim C7. The candidates are the master investors, in their order, whose identifier
  is the identifier of no project investor and that pass both filters: a filter that is
  set must equal the investor's tag, an empty filter admits every investor.
\<close>

theorem availableInvestors_candidates:
  "availableInvestors ms pis cf sf =
     filter (\<lambda>mi.
        (\<forall>pi \<in> set pis. \<not> same_value_zero (pi (js ''id'')) (mi (js ''id''))) \<and>
        (cf \<noteq> [] \<longrightarrow> mi (js ''classificacao'') = Some (JStr cf)) \<and>
        (sf \<noteq> [] \<longrightarrow> mi (js ''setor'') = Some (JStr sf))) ms"
proof -
  have "\<And>mi. set_has (map (\<lambda>pi. pi (js ''id'')) pis) (mi (js ''id'')) \<longleftrightarrow>
          (\<exists>pi \<in> set pis. same_value_zero (pi (js ''id'')) (mi (js ''id'')))"
    by (simp add: set_has_iff)
  then show ?thesis
    by (auto simp: availableInvestors_def strict_eq_str_def intro!: filter_cong)
qed



lemma in_pipelineJoinD:
  "r \<in> set (pipelineJoin ms docs) \<Longrightarrow> \<exists>d \<in> set docs. joinDoc ms d = Some r"
proof (induction docs)
  case Nil
  then show ?case by (simp add: pipelineJoin_Nil)
next
  case (Cons d docs)
  show ?case
  proof (cases "joinDoc ms d")
    case None
    with Cons.prems have "r \<in> set (pipelineJoin ms docs)" by (simp add: pipelineJoin_Cons)
    with Cons.IH show ?thesis by auto
  next
    case (Some r')
    with Cons.prems have "r = r' \<or> r \<in> set (pipelineJoin ms docs)"
      by (simp add: pipelineJoin_Cons)
    with Cons.IH Some show ?thesis by auto
  qed
qed

lemma joinDoc_id:
  assumes "joinDoc ms d = Some r" and "doc_data d (js ''id'') = None"
  shows "has_master ms d \<and> r (js ''id'') = Some (JStr (doc_id d))"
proof -
  from assms(1) have hm: "has_master ms d"
    using joinDoc_None_iff [of ms d] by auto
  from joinDoc_Some [OF hm] assms(1) obtain mi where
    mi: "strict_eq_str (mi (js ''id'')) (doc_id d)"
      "r = [js ''id'' \<mapsto> JStr (doc_id d)] ++ mi ++ doc_data d"
    by auto
  have "r (js ''id'') = Some (JStr (doc_id d))"
    using mi(1) assms(2) unfolding mi(2) by (simp add: map_add_def strict_eq_str_def)
  with hm show ?thesis by simp
qed

lemma joined_record_id:
  assumes "r \<in> set (pipelineJoin ms docs)"
    and "\<forall>d \<in> set docs. doc_data d (js ''id'') = None"
  shows "\<exists>d \<in> set docs. r (js ''id'') = Some (JStr (doc_id d))"
proof -
  from in_pipelineJoinD [OF assms(1)] obtain d where
    d: "d \<in> set docs" "joinDoc ms d = Some r" by blast
  from d(1) assms(2) have "doc_data d (js ''id'') = None" by blast
  from joinDoc_id [OF d(2) this] d(1) show ?thesis by blast
qed

lemma joined_record_exists:
  assumes "d \<in> set docs" and "has_master ms d" and "doc_data d (js ''id'') = None"
  shows "\<exists>r \<in> set (pipelineJoin ms docs). r (js ''id'') = Some (JStr (doc_id d))"
proof -
  from joinDoc_Some [OF assms(2)] obtain r where r: "joinDoc ms d = Some r" by blast
  from joinDoc_id [OF r assms(3)] have "r (js ''id'') = Some (JStr (doc_id d))" by simp
  moreover have "r \<in> set (pipelineJoin ms docs)"
    using joinDoc_in_pipelineJoin [OF assms(1) r] .
  ultimately show ?thesis by blast
qed

text \<open>
  The project investors of the dialog are the joined pipeline. Pipeline entries as the
  program writes them have no field named \<^verbatim>\<open>id\<close>; then an investor is kept exactly
  when no pipeline entry of the project has its identifier.
\<close>

lemma candidates_of_joined_pipeline:
  assumes noid: "\<forall>d \<in> set docs. doc_data d (js ''id'') = None"
  shows "availableInvestors ms (pipelineJoin ms docs) cf sf =
     filter (\<lambda>mi.
        (\<forall>d \<in> set docs. mi (js ''id'') \<noteq> Some (JStr (doc_id d))) \<and>
        (cf \<noteq> [] \<longrightarrow> mi (js ''classificacao'') = Some (JStr cf)) \<and>
        (sf \<noteq> [] \<longrightarrow> mi (js ''setor'') = Some (JStr sf))) ms"
proof -
  have key: "(\<forall>pi \<in> set (pipelineJoin ms docs). \<not> same_value_zero (pi (js ''id'')) (mi (js ''id'')))
        \<longleftrightarrow> (\<forall>d \<in> set docs. mi (js ''id'') \<noteq> Some (JStr (doc_id d)))"
    if "mi \<in> set ms" for mi
  proof
    assume a: "\<forall>pi \<in> set (pipelineJoin ms docs). \<not> same_value_zero (pi (js ''id'')) (mi (js ''id''))"
    show "\<forall>d \<in> set docs. mi (js ''id'') \<noteq> Some (JStr (doc_id d))"
    proof
      fix d assume d: "d \<in> set docs"
      show "mi (js ''id'') \<noteq> Some (JStr (doc_id d))"
      proof
        assume e: "mi (js ''id'') = Some (JStr (doc_id d))"
        then have hm: "has_master ms d"
          using that unfolding has_master_def strict_eq_str_def by blast
        from noid d have "doc_data d (js ''id'') = None" by blast
        from joined_record_exists [OF d hm this] obtain r where
          r: "r \<in> set (pipelineJoin ms docs)" "r (js ''id'') = Some (JStr (doc_id d))"
          by blast
        from a r(1) have "\<not> same_value_zero (r (js ''id'')) (mi (js ''id''))" by blast
        then show False unfolding r(2) e by (simp add: same_value_zero_str)
      qed
    qed
  next
    assume b: "\<forall>d \<in> set docs. mi (js ''id'') \<noteq> Some (JStr (doc_id d))"
    show "\<forall>pi \<in> set (pipelineJoin ms docs). \<not> same_value_zero (pi (js ''id'')) (mi (js ''id''))"
    proof
      fix r assume "r \<in> set (pipelineJoin ms docs)"
      from joined_record_id [OF this noid] obtain d where
        d: "d \<in> set docs" "r (js ''id'') = Some (JStr (doc_id d))" by blast
      from b d(1) have "mi (js ''id'') \<noteq> Some (JStr (doc_id d))" by blast
      then show "\<not> same_value_zero (r (js ''id'')) (mi (js ''id''))"
        unfolding d(2) by (simp add: same_value_zero_str_left)
    qed
  qed
  have key': "\<not> set_has (map (\<lambda>pi. pi (js ''id'')) (pipelineJoin ms docs)) (mi (js ''id''))
        \<longleftrightarrow> (\<forall>d \<in> set docs. mi (js ''id'') \<noteq> Some (JStr (doc_id d)))"
    if "mi \<in> set ms" for mi
    using key [OF that] by (simp add: set_has_iff)
  show ?thesis
    unfolding availableInvestors_def Let_def
    by (rule filter_cong) (auto simp: key' strict_eq_str_def)
qed

theorem availableInvestors_candidates_witness:
  "availableInvestors [ex_vc, ex_vc2, ex_pe] [ex_vc] (js ''VC'') [] = [ex_vc2]"
  using availableInvestors_candidates [of "[ex_vc, ex_vc2, ex_pe]" "[ex_vc]" "js ''VC''" "[]"]
  by (simp add: ex_vc_def ex_vc2_def ex_pe_def js_def same_value_zero_def)

section \<open>Properties of adding investors to a pipeline\<close>

lemma handleAdd_empty: "handleAdd ok appId uid pid [] st = (st, [])"
  by (simp add: handleAdd_def)

lemma handleAdd_refs:
  assumes "appId \<noteq> []" "uid \<noteq> []" "pid \<noteq> []" "\<forall>i \<in> set ids. i \<noteq> []"
  shows "those (map (pipelineRef appId (Some (JStr uid)) (Some (JStr pid)))
                 (map (\<lambda>i. Some (JStr i)) ids)) =
           Some (map (pipelinePath appId uid pid) ids)"
proof -
  have "those (map (\<lambda>i. pipelineRef appId (Some (JStr uid)) (Some (JStr pid)) (Some (JStr i))) ids)
          = Some (map (pipelinePath appId uid pid) ids)"
    by (rule those_map_Some) (use assms in \<open>simp add: pipelineRef_strings\<close>)
  then show ?thesis by (simp add: comp_def)
qed

lemma handleAdd_refs_comp:
  assumes "appId \<noteq> []" "uid \<noteq> []" "pid \<noteq> []" "\<forall>i \<in> set ids. i \<noteq> []"
  shows "those (map (pipelineRef appId (Some (JStr uid)) (Some (JStr pid)) \<circ> (\<lambda>i. Some (JStr i)))
                 ids) =
           Some (map (pipelinePath appId uid pid) ids)"
  using handleAdd_refs [OF assms] by (simp only: map_map)

lemma handleAdd_accepted:
  assumes "appId \<noteq> []" "uid \<noteq> []" "pid \<noteq> []" "\<forall>i \<in> set ids. i \<noteq> []" "ids \<noteq> []"
  shows "handleAdd True appId (Some (JStr uid)) (Some (JStr pid)) (map (\<lambda>i. Some (JStr i)) ids) st =
           ((\<lambda>p. if p \<in> pipelinePath appId uid pid ` set ids then Some newPipelineEntry else st p),
            [SetIsAdding True,
             BatchCommit (map (\<lambda>i. (pipelinePath appId uid pid i, newPipelineEntry)) ids),
             ShowToast (MsgAdded (length ids)) ToastSuccess, OnClose, SetIsAdding False])"
proof -
  note refs = handleAdd_refs_comp [OF assms(1-4)]
  have b: "map ((\<lambda>pipelineRef. (pipelineRef, newPipelineEntry)) \<circ> pipelinePath appId uid pid) ids
             = map (\<lambda>i. (pipelinePath appId uid pid i, newPipelineEntry)) ids"
    by (simp add: comp_def)
  have f: "fold (\<lambda>(ref, data) s. s(ref \<mapsto> data))
             (map (\<lambda>i. (pipelinePath appId uid pid i, newPipelineEntry)) ids) st =
           (\<lambda>p. if p \<in> pipelinePath appId uid pid ` set ids then Some newPipelineEntry else st p)"
    using fold_set_same [of newPipelineEntry "map (pipelinePath appId uid pid) ids" st]
    by (simp add: comp_def)
  show ?thesis
    using assms(5) by (simp add: handleAdd_def refs b batch_commit_def f Let_def)
qed

lemma handleAdd_rejected:
  assumes "appId \<noteq> []" "uid \<noteq> []" "pid \<noteq> []" "\<forall>i \<in> set ids. i \<noteq> []" "ids \<noteq> []"
  shows "handleAdd False appId (Some (JStr uid)) (Some (JStr pid)) (map (\<lambda>i. Some (JStr i)) ids) st =
           (st,
            [SetIsAdding True,
             BatchCommit (map (\<lambda>i. (pipelinePath appId uid pid i, newPipelineEntry)) ids),
             ShowToast MsgAddFailed ToastError, SetIsAdding False])"
proof -
  note refs = handleAdd_refs_comp [OF assms(1-4)]
  have b: "map ((\<lambda>pipelineRef. (pipelineRef, newPipelineEntry)) \<circ> pipelinePath appId uid pid) ids
             = map (\<lambda>i. (pipelinePath appId uid pid i, newPipelineEntry)) ids"
    by (simp add: comp_def)
  show ?thesis
    using assms(5) by (simp add: handleAdd_def refs b batch_commit_def Let_def)
qed

lemma newPipelineEntry_fields:
  "newPipelineEntry (js ''notaDePrioridade'') = Some (JNum 3)"
  "newPipelineEntry (js ''status'') = Some (JStr statusNaoContatado)"
  "newPipelineEntry (js ''historicoDeInteracoes'') = Some (JArr [])"
  by (simp_all add: newPipelineEntry_def js_def)

text \<open>
  Claim C6. For a signed-in user, a selected project and a non-empty list of chosen
  investor identifiers, one batch is committed that sets, for each identifier, the
  document at the path ending in that identifier to the default entry (priority 3,
  status \<^verbatim>\<open>Nao Contatado\<close>, empty history). After an accepted commit exactly those
  documents hold the default entry, whatever they held before, and every other document
  is untouched; the documents of the store are those it had and those paths, one per
  identifier, so adding again overwrites and the store stays the same. After a rejected
  commit the store is unchanged.
\<close>

theorem handleAdd_creates_entries:
  assumes "appId \<noteq> []" "uid \<noteq> []" "pid \<noteq> []" "\<forall>i \<in> set ids. i \<noteq> []" "ids \<noteq> []"
  shows "(\<exists>st'. handleAdd True appId (Some (JStr uid)) (Some (JStr pid))
                  (map (\<lambda>i. Some (JStr i)) ids) st =
                (st', [SetIsAdding True,
                       BatchCommit (map (\<lambda>i. (pipelinePath appId uid pid i, newPipelineEntry)) ids),
                       ShowToast (MsgAdded (length ids)) ToastSuccess, OnClose, SetIsAdding False])
              \<and> (\<forall>i \<in> set ids. st' (pipelinePath appId uid pid i) = Some newPipelineEntry)
              \<and> (\<forall>p. p \<notin> pipelinePath appId uid pid ` set ids \<longrightarrow> st' p = st p)
              \<and> dom st' = dom st \<union> pipelinePath appId uid pid ` set ids
              \<and> fst (handleAdd True appId (Some (JStr uid)) (Some (JStr pid))
                       (map (\<lambda>i. Some (JStr i)) ids) st') = st')
         \<and> handleAdd False appId (Some (JStr uid)) (Some (JStr pid))
                  (map (\<lambda>i. Some (JStr i)) ids) st =
                (st, [SetIsAdding True,
                      BatchCommit (map (\<lambda>i. (pipelinePath appId uid pid i, newPipelineEntry)) ids),
                      ShowToast MsgAddFailed ToastError, SetIsAdding False])
         \<and> newPipelineEntry (js ''notaDePrioridade'') = Some (JNum 3)
         \<and> newPipelineEntry (js ''status'') = Some (JStr statusNaoContatado)
         \<and> newPipelineEntry (js ''historicoDeInteracoes'') = Some (JArr [])"
proof -
  let ?st' = "\<lambda>p. if p \<in> pipelinePath appId uid pid ` set ids then Some newPipelineEntry else st p"
  have 1: "handleAdd True appId (Some (JStr uid)) (Some (JStr pid))
             (map (\<lambda>i. Some (JStr i)) ids) st =
           (?st', [SetIsAdding True,
                   BatchCommit (map (\<lambda>i. (pipelinePath appId uid pid i, newPipelineEntry)) ids),
                   ShowToast (MsgAdded (length ids)) ToastSuccess, OnClose, SetIsAdding False])"
    by (rule handleAdd_accepted [OF assms])
  have 2: "\<forall>i \<in> set ids. ?st' (pipelinePath appId uid pid i) = Some newPipelineEntry"
    by simp
  have 3: "\<forall>p. p \<notin> pipelinePath appId uid pid ` set ids \<longrightarrow> ?st' p = st p"
    by simp
  have 4: "dom ?st' = dom st \<union> pipelinePath appId uid pid ` set ids"
    by (auto simp: dom_def)
  have 5: "fst (handleAdd True appId (Some (JStr uid)) (Some (JStr pid))
                  (map (\<lambda>i. Some (JStr i)) ids) ?st') = ?st'"
    unfolding handleAdd_accepted [OF assms] by (simp add: fun_eq_iff)
  from 1 2 3 4 5 have A: "\<exists>st'. handleAdd True appId (Some (JStr uid)) (Some (JStr pid))
                  (map (\<lambda>i. Some (JStr i)) ids) st =
                (st', [SetIsAdding True,
                       BatchCommit (map (\<lambda>i. (pipelinePath appId uid pid i, newPipelineEntry)) ids),
                       ShowToast (MsgAdded (length ids)) ToastSuccess, OnClose, SetIsAdding False])
              \<and> (\<forall>i \<in> set ids. st' (pipelinePath appId uid pid i) = Some newPipelineEntry)
              \<and> (\<forall>p. p \<notin> pipelinePath appId uid pid ` set ids \<longrightarrow> st' p = st p)
              \<and> dom st' = dom st \<union> pipelinePath appId uid pid ` set ids
              \<and> fst (handleAdd True appId (Some (JStr uid)) (Some (JStr pid))
                       (map (\<lambda>i. Some (JStr i)) ids) st') = st'"
    by (intro exI [of _ ?st'] conjI)
  show ?thesis
    using A handleAdd_rejected [OF assms, of st] newPipelineEntry_fields
    by (intro conjI)
qed

theorem handleAdd_creates_entries_witness:
  "fst (handleAdd True (js ''app'') (Some (JStr (js ''u1''))) (Some (JStr (js ''p1'')))
          [Some (JStr (js ''i1'')), Some (JStr (js ''i2''))] ex_store)
       (pipelinePath (js ''app'') (js ''u1'') (js ''p1'') (js ''i1'')) = Some newPipelineEntry
   \<and> fst (handleAdd True (js ''app'') (Some (JStr (js ''u1''))) (Some (JStr (js ''p1'')))
          [Some (JStr (js ''i1'')), Some (JStr (js ''i2''))] ex_store)
       (pipelinePath (js ''app'') (js ''u1'') (js ''p1'') (js ''i2'')) = Some newPipelineEntry
   \<and> dom (fst (handleAdd True (js ''app'') (Some (JStr (js ''u1''))) (Some (JStr (js ''p1'')))
          [Some (JStr (js ''i1'')), Some (JStr (js ''i2''))] ex_store)) =
       {pipelinePath (js ''app'') (js ''u1'') (js ''p1'') (js ''i1''),
        pipelinePath (js ''app'') (js ''u1'') (js ''p1'') (js ''i2'')}"
proof -
  let ?P = "pipelinePath (js ''app'') (js ''u1'') (js ''p1'')"
  have h: "js ''app'' \<noteq> []" "js ''u1'' \<noteq> []" "js ''p1'' \<noteq> []"
    "\<forall>i \<in> set [js ''i1'', js ''i2'']. i \<noteq> []" "[js ''i1'', js ''i2''] \<noteq> []"
    by simp_all
  from handleAdd_creates_entries [OF h, of ex_store] obtain st' where
    e: "fst (handleAdd True (js ''app'') (Some (JStr (js ''u1''))) (Some (JStr (js ''p1'')))
            (map (\<lambda>i. Some (JStr i)) [js ''i1'', js ''i2'']) ex_store) = st'"
    and a: "\<forall>i \<in> set [js ''i1'', js ''i2'']. st' (?P i) = Some newPipelineEntry"
    and d: "dom st' = dom ex_store \<union> ?P ` set [js ''i1'', js ''i2'']"
    by fastforce
  have d0: "dom ex_store = {?P (js ''i1'')}"
    by (simp add: ex_store_def)
  have "dom st' = {?P (js ''i1''), ?P (js ''i2'')}"
    unfolding d d0 by auto
  moreover from a have "st' (?P (js ''i1'')) = Some newPipelineEntry"
    "st' (?P (js ''i2'')) = Some newPipelineEntry" by simp_all
  moreover from e have "fst (handleAdd True (js ''app'') (Some (JStr (js ''u1'')))
      (Some (JStr (js ''p1''))) [Some (JStr (js ''i1'')), Some (JStr (js ''i2''))] ex_store) = st'"
    by simp
  ultimately show ?thesis by simp
qed

section \<open>Properties of the interaction form\<close>

text \<open>
  Claim C10. When the notes are empty or hold white space only, or no user is signed in,
  or no project is selected, or the profile is a master-list profile, submitting the
  interaction form calls nothing: the store is returned as it was, every document with
  every field, and no effect is issued.
\<close>

theorem handleAddInteraction_guard:
  assumes "(\<forall>c \<in> set notes. js_white_space c) \<or> \<not> truthy uid \<or> \<not> truthy pid \<or> master"
  shows "handleAddInteraction ok date appId uid pid master investor ty notes st = (st, [])"
  using assms by (auto simp: handleAddInteraction_def trim_Nil_iff)


theorem handleAddInteraction_guard_witness:
  "handleAddInteraction True 0 (js ''app'') (Some (JStr (js ''u1''))) (Some (JStr (js ''p1'')))
     False ex_master (js ''Email'') (js ''   '') ex_store = (ex_store, [])
   \<and> handleAddInteraction True 0 (js ''app'') (Some JNull) (Some (JStr (js ''p1'')))
     False ex_master (js ''Email'') (js ''note'') ex_store = (ex_store, [])"
proof -
  have 1: "(\<forall>c \<in> set (js ''   ''). js_white_space c) \<or> \<not> truthy (Some (JStr (js ''u1'')))
             \<or> \<not> truthy (Some (JStr (js ''p1''))) \<or> False"
    by (simp add: js_def js_white_space_def)
  have 2: "(\<forall>c \<in> set (js ''note''). js_white_space c) \<or> \<not> truthy (Some JNull)
             \<or> \<not> truthy (Some (JStr (js ''p1''))) \<or> False"
    by simp
  show ?thesis
    using handleAddInteraction_guard [OF 1] handleAddInteraction_guard [OF 2] by simp
qed

section \<open>Properties of the bulk importer\<close>



text \<open>A row of well-written cells reads as the contents of its cells.\<close>

lemma blank_iff: "blank s \<longleftrightarrow> (\<forall>c \<in> set s. js_white_space c)"
  by (simp add: blank_def list_all_iff)



























text \<open>Beyond \<open>2 ^ 53\<close> the Number is the nearest double, a tie going to the even one.\<close>

lemma bitlen_ex1: "bitlen 9007199254740993 = 54"
  by simp

lemma bitlen_ex2: "bitlen 9007199254740995 = 54"
  by simp

lemma to_double_tie_down: "to_double 9007199254740993 = Some 9007199254740992"
  unfolding to_double_def bitlen_ex1 by (simp add: Let_def)

lemma to_double_tie_up: "to_double 9007199254740995 = Some 9007199254740996"
  unfolding to_double_def bitlen_ex2 by (simp add: Let_def)

text \<open>
  Every line is a row of well-written cells, and every value is a number or none: the
  description leaves out no data line, and of the ratings only those from \<open>2 ^ 53\<close> on.
\<close>

lemma join_cells_split: "join_cells (split_on 59 s) = s"
proof (induction s)
  case Nil
  show ?case by simp
next
  case (Cons c cs)
  obtain p ps where sp: "split_on 59 cs = p # ps"
    by (cases "split_on 59 cs") simp_all
  show ?case
  proof (cases "c = 59")
    case True
    with Cons sp show ?thesis by simp
  next
    case False
    with Cons sp show ?thesis by (cases ps) simp_all
  qed
qed

lemma split_on_pieces: "p \<in> set (split_on sep s) \<Longrightarrow> sep \<notin> set p"
proof (induction s arbitrary: p)
  case Nil
  then show ?case by simp
next
  case (Cons c cs)
  obtain q qs where sp: "split_on sep cs = q # qs"
    by (cases "split_on sep cs") simp_all
  show ?case
  proof (cases "c = sep")
    case True
    with Cons show ?thesis by auto
  next
    case False
    with Cons.prems sp have "p = c # q \<or> p \<in> set qs" by simp
    then show ?thesis
    proof
      assume "p = c # q"
      moreover have "sep \<notin> set q" using Cons.IH [of q] sp by simp
      ultimately show ?thesis using False by simp
    next
      assume "p \<in> set qs"
      then show ?thesis using Cons.IH [of p] sp by simp
    qed
  qed
qed

lemma drop_end_split: "s = drop_end P s @ rev (takeWhile P (rev s))"
proof -
  have "rev (takeWhile P (rev s) @ dropWhile P (rev s)) = s"
    by (simp only: takeWhile_dropWhile_id rev_rev_ident)
  then have "rev (dropWhile P (rev s)) @ rev (takeWhile P (rev s)) = s"
    by (simp only: rev_append)
  then show ?thesis by (simp only: drop_end_def)
qed

lemma set_drop_end: "x \<in> set (drop_end P s) \<Longrightarrow> x \<in> set s"
proof -
  assume "x \<in> set (drop_end P s)"
  then have "x \<in> set (dropWhile P (rev s))" by (simp add: drop_end_def)
  then have "x \<in> set (rev s)" by (rule set_dropWhileD)
  then show ?thesis by simp
qed

lemma set_trim: "x \<in> set (trim p) \<Longrightarrow> x \<in> set p"
proof -
  assume "x \<in> set (trim p)"
  then have "x \<in> set (dropWhile js_white_space p)"
    unfolding trim_drop_end by (rule set_drop_end)
  then show ?thesis by (rule set_dropWhileD)
qed

lemma blank_takeWhile: "blank (takeWhile js_white_space s)"
proof -
  have "js_white_space c" if "c \<in> set (takeWhile js_white_space s)" for c
    using set_takeWhileD [OF that] by simp
  then show ?thesis unfolding blank_iff by blast
qed

lemma blank_rev: "blank s \<Longrightarrow> blank (rev s)"
  by (simp add: blank_iff)

lemma clean_trim: "clean (trim p)"
proof (cases "trim p")
  case Nil
  then show ?thesis by (simp add: clean_def)
next
  case (Cons a v)
  let ?q = "dropWhile js_white_space p"
  have t: "trim p = rev (dropWhile js_white_space (rev ?q))" by (simp add: trim_def)
  with Cons have ne: "dropWhile js_white_space (rev ?q) \<noteq> []" by auto
  then have "\<not> js_white_space (hd (dropWhile js_white_space (rev ?q)))"
    by (rule hd_dropWhile)
  then have l: "\<not> js_white_space (last (trim p))"
    using ne unfolding t by (simp add: last_rev)
  have qne: "?q \<noteq> []"
  proof
    assume "?q = []"
    then have "dropWhile js_white_space (rev ?q) = []"
      by (simp only: rev.simps dropWhile.simps)
    with ne show False by (rule notE)
  qed
  then obtain b q' where q: "?q = b # q'" by (cases ?q) auto
  have nb: "\<not> js_white_space b"
    using hd_dropWhile [OF qne] q by simp
  then have "\<not> (\<forall>x \<in> set (b # q'). js_white_space x)" by simp
  then have "drop_end js_white_space (b # q') = b # drop_end js_white_space q'"
    by (rule drop_end_keep)
  then have "trim p = b # drop_end js_white_space q'"
    unfolding trim_drop_end q .
  with Cons nb l show ?thesis by (simp add: clean_def)
qed

lemma piece_as_cell:
  assumes "59 \<notin> set p"
  shows "\<exists>c. well_written c \<and> written c = p"
proof -
  let ?q = "dropWhile js_white_space p"
  let ?c = "\<lparr>pad_left = takeWhile js_white_space p, content = trim p,
             pad_right = rev (takeWhile js_white_space (rev ?q))\<rparr>"
  have "?q = trim p @ rev (takeWhile js_white_space (rev ?q))"
    unfolding trim_drop_end by (rule drop_end_split)
  then have "takeWhile js_white_space p @ trim p @ rev (takeWhile js_white_space (rev ?q)) =
               takeWhile js_white_space p @ ?q" by simp
  then have w: "written ?c = p" by (simp add: written_def)
  have s: "59 \<notin> set (trim p)"
    using assms set_trim [of 59 p] by blast
  have b1: "blank (takeWhile js_white_space p)"
    by (rule blank_takeWhile)
  have b2: "blank (rev (takeWhile js_white_space (rev ?q)))"
    by (rule blank_rev) (rule blank_takeWhile)
  have "well_written ?c"
    using b1 b2 s clean_trim [of p] by (simp add: well_written_def)
  with w show ?thesis by blast
qed

lemma pieces_as_cells:
  "\<forall>p \<in> set ps. 59 \<notin> set p \<Longrightarrow>
     \<exists>cells. (\<forall>c \<in> set cells. well_written c) \<and> map written cells = ps"
proof (induction ps)
  case Nil
  have "(\<forall>c \<in> set []. well_written c) \<and> map written [] = []" by simp
  then show ?case by (rule exI)
next
  case (Cons p ps)
  from Cons.prems have rest: "\<forall>p \<in> set ps. 59 \<notin> set p" and p: "59 \<notin> set p"
    by simp_all
  from Cons.IH [OF rest] obtain cells where
    cells: "\<forall>c \<in> set cells. well_written c" "map written cells = ps"
    by blast
  from piece_as_cell [OF p] obtain c where c: "well_written c" "written c = p"
    by blast
  have "(\<forall>x \<in> set (c # cells). well_written x) \<and> map written (c # cells) = p # ps"
    using c cells by simp
  then show ?case by (rule exI)
qed

lemma every_line_is_a_row:
  "\<exists>cells. cells \<noteq> [] \<and> (\<forall>c \<in> set cells. well_written c) \<and> line = join_cells (map written cells)"
proof -
  have "\<forall>p \<in> set (split_on 59 line). 59 \<notin> set p"
    by (auto dest: split_on_pieces)
  from pieces_as_cells [OF this] obtain cells where
    cells: "\<forall>c \<in> set cells. well_written c" "map written cells = split_on 59 line"
    by blast
  have "cells \<noteq> []"
  proof
    assume "cells = []"
    with cells(2) have "split_on 59 line = []" by simp
    then show False by simp
  qed
  moreover have "line = join_cells (map written cells)"
    unfolding cells(2) by (simp add: join_cells_split)
  ultimately show ?thesis using cells(1) by blast
qed


lemma digits_prefix:
  assumes "u \<noteq> []" and "is_digit (hd u)"
  shows "\<exists>ds rest. u = map digit_unit ds @ rest \<and> ds \<noteq> [] \<and> (\<forall>d \<in> set ds. d < 10)
           \<and> (rest = [] \<or> hd rest < 48 \<or> 57 < hd rest)"
proof -
  let ?cs = "takeWhile is_digit u"
  let ?ds = "map (\<lambda>c. c - 48) ?cs"
  let ?rest = "dropWhile is_digit u"
  have dig: "is_digit c" if "c \<in> set ?cs" for c
    using set_takeWhileD [OF that] by simp
  have "map digit_unit ?ds = ?cs"
  proof -
    have "digit_unit (c - 48) = c" if "c \<in> set ?cs" for c
      using dig [OF that] by (simp add: digit_unit_def is_digit_def)
    then have "map (\<lambda>c. digit_unit (c - 48)) ?cs = map (\<lambda>c. c) ?cs"
      by (intro map_cong) simp_all
    then show ?thesis by (simp add: comp_def)
  qed
  then have 1: "u = map digit_unit ?ds @ ?rest" by simp
  from assms obtain c cs where u: "u = c # cs" "is_digit c" by (cases u) auto
  then have 2: "?ds \<noteq> []" by simp
  have 3: "\<forall>d \<in> set ?ds. d < 10"
  proof
    fix d assume "d \<in> set ?ds"
    then obtain c where "c \<in> set ?cs" "d = c - 48" by auto
    with dig [of c] show "d < 10" by (auto simp: is_digit_def)
  qed
  have 4: "?rest = [] \<or> hd ?rest < 48 \<or> 57 < hd ?rest"
  proof (cases "?rest = []")
    case True
    then show ?thesis by simp
  next
    case False
    then have "\<not> is_digit (hd ?rest)" by (rule hd_dropWhile)
    then show ?thesis by (auto simp: is_digit_def)
  qed
  from 1 2 3 4 show ?thesis by blast
qed

lemma number_or_none:
  "no_number t \<or>
   (\<exists>sg ds rest. t = sg @ map digit_unit ds @ rest \<and> (sg = [] \<or> sg = [43] \<or> sg = [45])
      \<and> ds \<noteq> [] \<and> (\<forall>d \<in> set ds. d < 10) \<and> (rest = [] \<or> hd rest < 48 \<or> 57 < hd rest))"
proof (cases "no_number t")
  case True
  then show ?thesis by simp
next
  case False
  have "\<exists>sg u. t = sg @ u \<and> (sg = [] \<or> sg = [43] \<or> sg = [45]) \<and> u \<noteq> [] \<and> is_digit (hd u)"
  proof (cases t rule: no_number.cases)
    case 1
    with False show ?thesis by simp
  next
    case (2 c)
    with False have "is_digit c" by (simp add: is_digit_def)
    with 2 have "t = [] @ t \<and> t \<noteq> [] \<and> is_digit (hd t)" by simp
    then show ?thesis by blast
  next
    case (3 c d r)
    show ?thesis
    proof (cases "c = 43 \<or> c = 45")
      case True
      with False 3 have "is_digit d" by (auto simp: is_digit_def)
      with 3 have "t = [c] @ (d # r) \<and> d # r \<noteq> [] \<and> is_digit (hd (d # r))" by simp
      with True show ?thesis by blast
    next
      case nsign: False
      with False 3 have "is_digit c" by (auto simp: is_digit_def)
      with 3 have "t = [] @ t \<and> t \<noteq> [] \<and> is_digit (hd t)" by simp
      then show ?thesis by blast
    qed
  qed
  then obtain sg u where su: "t = sg @ u" "sg = [] \<or> sg = [43] \<or> sg = [45]"
    "u \<noteq> []" "is_digit (hd u)" by blast
  from digits_prefix [OF su(3,4)] obtain ds rest where
    "u = map digit_unit ds @ rest" "ds \<noteq> []" "\<forall>d \<in> set ds. d < 10"
    "rest = [] \<or> hd rest < 48 \<or> 57 < hd rest" by blast
  with su(1,2) show ?thesis by blast
qed








lemma investorsCollection_strings:
  "appId \<noteq> [] \<Longrightarrow> uid \<noteq> [] \<Longrightarrow>
     investorsCollection appId (Some (JStr uid)) = Some (investorsPath appId uid)"
  by (simp add: investorsCollection_def path_of_def investorsPath_def)

lemma map_zip_upt:
  "map (\<lambda>(i, x). g i x) (zip [0 ..< length xs] xs) = map (\<lambda>i. g i (xs ! i)) [0 ..< length xs]"
  by (rule nth_equalityI) simp_all

lemma import_batch_rows:
  "import_batch env (investorsPath appId uid)
       (map (parse_line (map trim (split_on 59 (trim headerLine)))) rows) =
     map (\<lambda>i. (imported_path env appId uid i, imported_record env headerLine rows i))
       [0 ..< length rows]"
proof -
  let ?hs = "map trim (split_on 59 (trim headerLine))"
  let ?xs = "map (parse_line ?hs) rows"
  have "import_batch env (investorsPath appId uid) ?xs =
          map (\<lambda>i. (investorsPath appId uid @ [new_doc_id env i],
                     mappedData (?xs ! i) (clock env i))) [0 ..< length ?xs]"
    unfolding import_batch_def by (rule map_zip_upt)
  also have "\<dots> = map (\<lambda>i. (imported_path env appId uid i, imported_record env headerLine rows i))
                      [0 ..< length rows]"
    by (simp add: imported_path_def imported_record_def)
  finally show ?thesis .
qed

lemma fold_batch:
  "fold (\<lambda>(ref, data) s. s(ref \<mapsto> data)) batch st = st ++ map_of (rev batch)"
proof (induction batch arbitrary: st)
  case Nil
  show ?case by simp
next
  case (Cons b batch)
  obtain r d where b: "b = (r, d)" by (cases b)
  have "fold (\<lambda>(ref, data) s. s(ref \<mapsto> data)) (b # batch) st =
          fold (\<lambda>(ref, data) s. s(ref \<mapsto> data)) batch (st(r \<mapsto> d))"
    by (simp add: b)
  also have "\<dots> = st(r \<mapsto> d) ++ map_of (rev batch)"
    by (rule Cons.IH)
  also have "\<dots> = st ++ map_of (rev (b # batch))"
    by (rule ext) (simp add: b map_add_def split: option.splits)
  finally show ?case .
qed

lemma handleImport_lines:
  assumes "trim csv \<noteq> []" and "split_on 10 (trim csv) = headerLine # rows"
    and "appId \<noteq> []" and "uid \<noteq> []"
  shows "handleImport env appId (Some (JStr uid)) csv st =
     (if commit_ok env
      then (st ++ map_of (rev (map (\<lambda>i. (imported_path env appId uid i,
                                          imported_record env headerLine rows i))
                                [0 ..< length rows])),
            [SetIsImporting True,
             BatchCommit (map (\<lambda>i. (imported_path env appId uid i,
                                     imported_record env headerLine rows i))
                           [0 ..< length rows]),
             ShowToast (MsgImported (length rows)) ToastSuccess, OnClose, SetIsImporting False])
      else (st,
            [SetIsImporting True,
             BatchCommit (map (\<lambda>i. (imported_path env appId uid i,
                                     imported_record env headerLine rows i))
                           [0 ..< length rows]),
             ShowToast MsgImportFailed ToastError, SetIsImporting False]))"
  using assms(1)
  by (simp add: handleImport_def assms(2) investorsCollection_strings [OF assms(3,4)]
        import_batch_rows batch_commit_def fold_batch Let_def)

lemma handleImport_store_header_only:
  assumes "trim csv \<noteq> []" and "10 \<notin> set (trim csv)"
  shows "fst (handleImport env appId u csv st) = st"
proof -
  have s: "split_on 10 (trim csv) = [trim csv]"
    using assms(2) by (rule split_on_no_sep)
  show ?thesis
    using assms(1)
    by (simp add: handleImport_def s import_batch_def batch_commit_def Let_def
          split: option.splits)
qed


text \<open>
  Claim C1, as the code has it. Input that is empty or holds white space only is
  rejected with the error toast before anything is parsed, and the store is unchanged.
  A header line with no data line after it is not rejected: the store is unchanged, and
  for a signed-in user whose commit the store accepts an empty batch is committed and
  the import of 0 investors is reported as a success.
\<close>

theorem import_without_data_lines:
  "((\<forall>c \<in> set csv. js_white_space c) \<longrightarrow>
      handleImport env appId u csv st = (st, [ShowToast MsgPasteCsv ToastError]))
   \<and> (\<not> (\<forall>c \<in> set csv. js_white_space c) \<and> 10 \<notin> set (trim csv) \<longrightarrow>
        fst (handleImport env appId u csv st) = st)
   \<and> (\<not> (\<forall>c \<in> set csv. js_white_space c) \<and> 10 \<notin> set (trim csv)
        \<and> appId \<noteq> [] \<and> uid \<noteq> [] \<and> commit_ok env \<longrightarrow>
        snd (handleImport env appId (Some (JStr uid)) csv st) =
          [SetIsImporting True, BatchCommit [], ShowToast (MsgImported 0) ToastSuccess,
           OnClose, SetIsImporting False])"
proof (intro conjI impI)
  assume "\<forall>c \<in> set csv. js_white_space c"
  then have "trim csv = []" by (simp add: trim_Nil_iff)
  then show "handleImport env appId u csv st = (st, [ShowToast MsgPasteCsv ToastError])"
    by (simp add: handleImport_def)
next
  assume a: "\<not> (\<forall>c \<in> set csv. js_white_space c) \<and> 10 \<notin> set (trim csv)"
  then have "trim csv \<noteq> []" by (simp add: trim_Nil_iff)
  with a show "fst (handleImport env appId u csv st) = st"
    by (simp add: handleImport_store_header_only)
next
  assume a: "\<not> (\<forall>c \<in> set csv. js_white_space c) \<and> 10 \<notin> set (trim csv)
        \<and> appId \<noteq> [] \<and> uid \<noteq> [] \<and> commit_ok env"
  then have t: "trim csv \<noteq> []" by (simp add: trim_Nil_iff)
  have s: "split_on 10 (trim csv) = trim csv # []"
    using a by (simp add: split_on_no_sep)
  from a have i: "appId \<noteq> []" "uid \<noteq> []" by simp_all
  show "snd (handleImport env appId (Some (JStr uid)) csv st) =
          [SetIsImporting True, BatchCommit [], ShowToast (MsgImported 0) ToastSuccess,
           OnClose, SetIsImporting False]"
    unfolding handleImport_lines [OF t s i] using a by simp
qed

lemma ex_header_only_trim: "trim (js ''NomeFantasia;Nota'') = js ''NomeFantasia;Nota''"
  by (simp add: js_def trim_def js_white_space_def)

theorem import_without_data_lines_witness:
  "handleImport ex_env (js ''app'') (Some (JStr (js ''u1''))) (js ''  '') ex_empty_store =
     (ex_empty_store, [ShowToast MsgPasteCsv ToastError])
   \<and> fst (handleImport ex_env (js ''app'') (Some (JStr (js ''u1''))) (js ''NomeFantasia;Nota'')
        ex_empty_store) = ex_empty_store
   \<and> snd (handleImport ex_env (js ''app'') (Some (JStr (js ''u1''))) (js ''NomeFantasia;Nota'')
        ex_empty_store) =
       [SetIsImporting True, BatchCommit [], ShowToast (MsgImported 0) ToastSuccess,
        OnClose, SetIsImporting False]"
proof -
  have b: "\<forall>c \<in> set (js ''  ''). js_white_space c"
    by (simp add: js_def js_white_space_def)
  have h: "\<not> (\<forall>c \<in> set (js ''NomeFantasia;Nota''). js_white_space c)"
    by (simp add: js_def js_white_space_def)
  have n: "10 \<notin> set (trim (js ''NomeFantasia;Nota''))"
    unfolding ex_header_only_trim by (simp add: js_def)
  have o: "js ''app'' \<noteq> []" "js ''u1'' \<noteq> []" "commit_ok ex_env"
    by (simp_all add: ex_env_def)
  from import_without_data_lines
         [of "js ''  ''" ex_env "js ''app''" "Some (JStr (js ''u1''))" ex_empty_store]
       b
  have 1: "handleImport ex_env (js ''app'') (Some (JStr (js ''u1''))) (js ''  '') ex_empty_store =
     (ex_empty_store, [ShowToast MsgPasteCsv ToastError])"
    by blast
  from import_without_data_lines
         [of "js ''NomeFantasia;Nota''" ex_env "js ''app''" "Some (JStr (js ''u1''))" ex_empty_store
            "js ''u1''"]
       h n o
  have 2: "fst (handleImport ex_env (js ''app'') (Some (JStr (js ''u1''))) (js ''NomeFantasia;Nota'')
        ex_empty_store) = ex_empty_store"
    and 3: "snd (handleImport ex_env (js ''app'') (Some (JStr (js ''u1''))) (js ''NomeFantasia;Nota'')
        ex_empty_store) =
       [SetIsImporting True, BatchCommit [], ShowToast (MsgImported 0) ToastSuccess,
        OnClose, SetIsImporting False]"
    by blast+
  from 1 2 3 show ?thesis by blast
qed

text \<open>
  The claim as written fails on a header line alone: the import is reported as a
  success, not rejected.
\<close>

theorem header_only_import_counterexample:
  "handleImport ex_env (js ''app'') (Some (JStr (js ''u1''))) (js ''NomeFantasia;Nota'')
       ex_empty_store =
     (ex_empty_store,
      [SetIsImporting True, BatchCommit [], ShowToast (MsgImported 0) ToastSuccess,
       OnClose, SetIsImporting False])"
proof -
  have s: "split_on 10 (js ''NomeFantasia;Nota'') = [js ''NomeFantasia;Nota'']"
    by (rule split_on_no_sep) (simp add: js_def)
  have c: "investorsCollection (js ''app'') (Some (JStr (js ''u1''))) =
             Some (investorsPath (js ''app'') (js ''u1''))"
    by (rule investorsCollection_strings) simp_all
  have n: "js ''NomeFantasia;Nota'' \<noteq> []" by simp
  show ?thesis
    unfolding handleImport_def ex_header_only_trim s c
    using n by (simp add: import_batch_def batch_commit_def ex_env_def)
qed


lemma join_lines_not_Nil: "l \<noteq> [] \<Longrightarrow> join_lines (l # ls) \<noteq> []"
  by (cases ls) simp_all

lemma imported_path_eq:
  "imported_path env appId uid i = imported_path env appId uid j \<longleftrightarrow>
     new_doc_id env i = new_doc_id env j"
  by (simp add: imported_path_def)

lemma imported_paths_inj:
  "inj_on (new_doc_id env) A \<Longrightarrow> inj_on (imported_path env appId uid) A"
  by (simp add: inj_on_def imported_path_eq)

lemma committed_batch:
  fixes p :: "nat \<Rightarrow> path" and r :: "nat \<Rightarrow> jsobj"
  assumes inj: "inj_on p {..< n}" and fresh: "\<forall>i < n. st (p i) = None"
  defines "st' \<equiv> st ++ map_of (rev (map (\<lambda>i. (p i, r i)) [0 ..< n]))"
  shows "\<forall>i < n. st' (p i) = Some (r i)"
    and "\<forall>q. q \<notin> p ` {..< n} \<longrightarrow> st' q = st q"
    and "card (dom st' - dom st) = n"
proof -
  let ?B = "map (\<lambda>i. (p i, r i)) [0 ..< n]"
  have fstB: "map fst ?B = map p [0 ..< n]" by (simp add: comp_def)
  have "distinct (map p [0 ..< n])"
    using inj by (simp add: distinct_map atLeast0LessThan)
  then have d: "distinct (map fst (rev ?B))"
    unfolding rev_map [symmetric] fstB by simp
  show 1: "\<forall>i < n. st' (p i) = Some (r i)"
  proof (intro allI impI)
    fix i assume "i < n"
    then have "(p i, r i) \<in> set (rev ?B)" by auto
    with d have "map_of (rev ?B) (p i) = Some (r i)"
      by (simp only: map_of_eq_Some_iff)
    then show "st' (p i) = Some (r i)" by (simp add: st'_def map_add_def)
  qed
  show 2: "\<forall>q. q \<notin> p ` {..< n} \<longrightarrow> st' q = st q"
  proof (intro allI impI)
    fix q assume "q \<notin> p ` {..< n}"
    then have "q \<notin> fst ` set (rev ?B)" by (auto simp: image_iff)
    then have "map_of (rev ?B) q = None" by (simp only: map_of_eq_None_iff not_False_eq_True)
    then show "st' q = st q" by (simp add: st'_def map_add_def)
  qed
  have "dom st' - dom st = p ` {..< n}"
  proof (intro set_eqI iffI)
    fix q assume "q \<in> dom st' - dom st"
    then have "st' q \<noteq> st q" by (auto simp: dom_def)
    with 2 show "q \<in> p ` {..< n}" by blast
  next
    fix q assume "q \<in> p ` {..< n}"
    then obtain i where i: "i < n" "q = p i" by auto
    with 1 fresh have "st' q = Some (r i)" "st q = None" by simp_all
    then show "q \<in> dom st' - dom st" by (auto simp: dom_def)
  qed
  then show "card (dom st' - dom st) = n"
    using inj by (simp add: card_image)
qed

lemma imported_record_date:
  "imported_record env headerLine rows i (js ''dataDeCriacao'') = Some (JTime (clock env i))"
  by (simp add: imported_record_def mappedData_def)

text \<open>
  Claim C5. A text that is, within its blank margins, a header line and \<open>N\<close> data
  lines, imported by a signed-in user: one batch of \<open>N\<close> set operations is built and
  committed once.
  The \<open>i\<close>-th operation writes the record of the \<open>i\<close>-th data line, with the creation
  time read for it, at the path of the identifier generated for it. When the generated
  identifiers are fresh and the store accepts the commit, the store gains exactly \<open>N\<close>
  documents, those records, and nothing else changes; when the store rejects the commit,
  the store is unchanged.
\<close>

theorem import_creates_one_record_per_line:
  assumes "\<forall>l \<in> set (headerLine # rows). 10 \<notin> set l"
    and "trim csv = join_lines (headerLine # rows)"
    and "headerLine \<noteq> []"
    and "appId \<noteq> []" and "uid \<noteq> []"
    and "inj_on (new_doc_id env) {..< length rows}"
    and "\<forall>i < length rows. st (imported_path env appId uid i) = None"
  shows "(commit_ok env \<longrightarrow>
           (\<exists>st'. handleImport env appId (Some (JStr uid)) csv st =
                    (st', [SetIsImporting True,
                           BatchCommit (map (\<lambda>i. (imported_path env appId uid i,
                                                   imported_record env headerLine rows i))
                                         [0 ..< length rows]),
                           ShowToast (MsgImported (length rows)) ToastSuccess,
                           OnClose, SetIsImporting False])
                 \<and> (\<forall>i < length rows. st' (imported_path env appId uid i) =
                                          Some (imported_record env headerLine rows i))
                 \<and> (\<forall>q. q \<notin> imported_path env appId uid ` {..< length rows} \<longrightarrow> st' q = st q)
                 \<and> card (dom st' - dom st) = length rows))
       \<and> (\<not> commit_ok env \<longrightarrow>
            handleImport env appId (Some (JStr uid)) csv st =
              (st, [SetIsImporting True,
                    BatchCommit (map (\<lambda>i. (imported_path env appId uid i,
                                            imported_record env headerLine rows i))
                                  [0 ..< length rows]),
                    ShowToast MsgImportFailed ToastError, SetIsImporting False]))
       \<and> (\<forall>i < length rows.
             imported_record env headerLine rows i (js ''dataDeCriacao'') = Some (JTime (clock env i)))"
proof -
  let ?B = "map (\<lambda>i. (imported_path env appId uid i, imported_record env headerLine rows i))
              [0 ..< length rows]"
  let ?st' = "st ++ map_of (rev ?B)"
  have t: "trim csv \<noteq> []"
    unfolding assms(2) using assms(3) by (rule join_lines_not_Nil)
  have s: "split_on 10 (trim csv) = headerLine # rows"
    unfolding assms(2) using assms(1) by (intro split_on_join_lines) simp_all
  note run = handleImport_lines [OF t s assms(4,5), of env st]
  have inj: "inj_on (imported_path env appId uid) {..< length rows}"
    using assms(6) by (rule imported_paths_inj)
  note cb = committed_batch [OF inj assms(7), of "imported_record env headerLine rows"]
  have ok: "commit_ok env \<longrightarrow>
           (\<exists>st'. handleImport env appId (Some (JStr uid)) csv st =
                    (st', [SetIsImporting True, BatchCommit ?B,
                           ShowToast (MsgImported (length rows)) ToastSuccess,
                           OnClose, SetIsImporting False])
                 \<and> (\<forall>i < length rows. st' (imported_path env appId uid i) =
                                          Some (imported_record env headerLine rows i))
                 \<and> (\<forall>q. q \<notin> imported_path env appId uid ` {..< length rows} \<longrightarrow> st' q = st q)
                 \<and> card (dom st' - dom st) = length rows)"
  proof
    assume c: "commit_ok env"
    have "handleImport env appId (Some (JStr uid)) csv st =
            (?st', [SetIsImporting True, BatchCommit ?B,
                    ShowToast (MsgImported (length rows)) ToastSuccess,
                    OnClose, SetIsImporting False])"
      unfolding run using c by simp
    with cb show "\<exists>st'. handleImport env appId (Some (JStr uid)) csv st =
                    (st', [SetIsImporting True, BatchCommit ?B,
                           ShowToast (MsgImported (length rows)) ToastSuccess,
                           OnClose, SetIsImporting False])
                 \<and> (\<forall>i < length rows. st' (imported_path env appId uid i) =
                                          Some (imported_record env headerLine rows i))
                 \<and> (\<forall>q. q \<notin> imported_path env appId uid ` {..< length rows} \<longrightarrow> st' q = st q)
                 \<and> card (dom st' - dom st) = length rows"
      by (intro exI [of _ ?st'] conjI)
  qed
  have rej: "\<not> commit_ok env \<longrightarrow>
            handleImport env appId (Some (JStr uid)) csv st =
              (st, [SetIsImporting True, BatchCommit ?B,
                    ShowToast MsgImportFailed ToastError, SetIsImporting False])"
    unfolding run by simp
  from ok rej imported_record_date show ?thesis by (intro conjI allI impI) blast+
qed


theorem import_creates_one_record_per_line_witness:
  "card (dom (fst (handleImport ex_env (js ''app'') (Some (JStr (js ''u1''))) ex_csv
                     ex_empty_store)) - dom ex_empty_store) = 2
   \<and> fst (handleImport ex_env (js ''app'') (Some (JStr (js ''u1''))) ex_csv ex_empty_store)
         (imported_path ex_env (js ''app'') (js ''u1'') 1) =
       Some (imported_record ex_env (js ''NomeFantasia;Nota'') [js ''Acme;5'', js ''Beta;x''] 1)"
proof -
  let ?h = "js ''NomeFantasia;Nota''"
  let ?rows = "[js ''Acme;5'', js ''Beta;x'']"
  have h1: "\<forall>l \<in> set (?h # ?rows). 10 \<notin> set l" by (simp add: js_def)
  have h2: "trim ex_csv = join_lines (?h # ?rows)"
    by (simp add: ex_csv_def js_def trim_def js_white_space_def)
  have h3: "?h \<noteq> []" "js ''app'' \<noteq> []" "js ''u1'' \<noteq> []" by simp_all
  have h6: "inj_on (new_doc_id ex_env) {..< length ?rows}"
    by (simp add: ex_env_def inj_on_def)
  have h7: "\<forall>i < length ?rows. ex_empty_store (imported_path ex_env (js ''app'') (js ''u1'') i) = None"
    by (simp add: ex_empty_store_def)
  have c: "commit_ok ex_env" by (simp add: ex_env_def)
  from import_creates_one_record_per_line [OF h1 h2 h3 h6 h7] c obtain st' where
    e: "fst (handleImport ex_env (js ''app'') (Some (JStr (js ''u1''))) ex_csv ex_empty_store) = st'"
    and r: "\<forall>i < length ?rows. st' (imported_path ex_env (js ''app'') (js ''u1'') i) =
              Some (imported_record ex_env ?h ?rows i)"
    and k: "card (dom st' - dom ex_empty_store) = length ?rows"
    by fastforce
  from r have "st' (imported_path ex_env (js ''app'') (js ''u1'') 1) =
                 Some (imported_record ex_env ?h ?rows 1)" by simp
  with k show ?thesis unfolding e by simp
qed

section \<open>Properties of the project selection\<close>

text \<open>
  What a snapshot of the projects does to the selection, in terms of the value that the
  subscription's callback reads as \<^verbatim>\<open>selectedProjectId\<close>.
\<close>

lemma pipelineEffect_keeps:
  "selectedProjectId (pipelineEffect s) = selectedProjectId s"
  "projectsSubscription (pipelineEffect s) = projectsSubscription s"
  "userId (pipelineEffect s) = userId s"
  "projects (pipelineEffect s) = projects s"
  by (simp_all add: pipelineEffect_def)

lemma setSelectedProjectId_selected:
  "selectedProjectId (setSelectedProjectId v s) = v"
  by (simp add: setSelectedProjectId_def pipelineEffect_keeps)

lemma setSelectedProjectId_subscription:
  "projectsSubscription (setSelectedProjectId v s) = projectsSubscription s"
  by (simp add: setSelectedProjectId_def pipelineEffect_keeps)

text \<open>Without a project or without a user the list of project investors is empty.\<close>

lemma pipelineEffect_empties:
  "\<not> truthy (selectedProjectId s) \<or> \<not> truthy (userId s) \<Longrightarrow>
     projectInvestors (pipelineEffect s) = []"
  by (auto simp: pipelineEffect_def)

lemma sign_out_empties:
  assumes "\<not> truthy u" and "u \<noteq> userId s"
  shows "projectInvestors (onAuthStateChanged u s) = []"
    and "projects (onAuthStateChanged u s) = []"
    and "masterInvestors (onAuthStateChanged u s) = []"
  using assms by (simp_all add: onAuthStateChanged_def pipelineEffect_def)

lemma first_snapshot_selects:
  assumes "projectsSubscription s = Some c" and "\<not> truthy c" and "docs \<noteq> []"
  shows "selectedProjectId (onProjectsSnapshot docs s) = fromDoc (hd docs) (js ''id'')"
proof -
  from assms(3) obtain d ds where d: "docs = d # ds" by (cases docs) auto
  show ?thesis
    using assms(1,2) unfolding d
    by (simp add: onProjectsSnapshot_def projectsCallback_def Let_def
          setSelectedProjectId_selected)
qed

lemma empty_snapshot_clears:
  assumes "projectsSubscription s = Some c"
  shows "selectedProjectId (onProjectsSnapshot [] s) = Some JNull"
  using assms
  by (simp add: onProjectsSnapshot_def projectsCallback_def setSelectedProjectId_selected)

lemma snapshot_keeps_selection:
  assumes "projectsSubscription s = Some c" and "truthy c" and "docs \<noteq> []"
  shows "selectedProjectId (onProjectsSnapshot docs s) = selectedProjectId s"
  using assms by (simp add: onProjectsSnapshot_def projectsCallback_def Let_def)

text \<open>
  The value the callback reads is fixed when the subscription is opened; selecting a
  project does not change it.
\<close>

lemma selectProject_subscription:
  "projectsSubscription (selectProject p s) = projectsSubscription s"
  by (simp add: selectProject_def setSelectedProjectId_subscription)

lemma onProjectsSnapshot_subscription:
  "projectsSubscription (onProjectsSnapshot docs s) = projectsSubscription s"
  by (simp add: onProjectsSnapshot_def projectsCallback_def Let_def
        setSelectedProjectId_subscription split: option.splits)

lemma sign_in_subscription:
  assumes "truthy u" and "u \<noteq> userId s"
  shows "projectsSubscription (onAuthStateChanged u s) = Some (selectedProjectId s)"
  using assms by (simp add: onAuthStateChanged_def pipelineEffect_keeps)

lemma ex_signed_in_subscription: "projectsSubscription ex_signed_in = Some (Some JNull)"
  by (simp add: ex_signed_in_def onAuthStateChanged_def initial_state_def pipelineEffect_def)

lemma ex_first_snapshot_selected: "selectedProjectId ex_first_snapshot = Some (JStr (js ''p1''))"
proof -
  have "selectedProjectId ex_first_snapshot = fromDoc (hd [ex_project1, ex_project2]) (js ''id'')"
    unfolding ex_first_snapshot_def
    by (rule first_snapshot_selects [OF ex_signed_in_subscription]) simp_all
  then show ?thesis by (simp add: fromDoc_def ex_project1_def js_def)
qed

text \<open>
  Claim C8 on the code. After sign-in, with the second project selected by the user, the
  next snapshot of the projects selects the first project again: the callback of the
  subscription still reads the selection of the time it was opened, which was none.
\<close>

theorem projects_snapshot_replaces_selection:
  "selectedProjectId ex_second_selected = Some (JStr (js ''p2''))
   \<and> selectedProjectId ex_next_snapshot = Some (JStr (js ''p1''))"
proof -
  have 1: "selectedProjectId ex_second_selected = Some (JStr (js ''p2''))"
    by (simp add: ex_second_selected_def selectProject_def setSelectedProjectId_selected
          fromDoc_def ex_project2_def js_def)
  have sub: "projectsSubscription ex_second_selected = Some (Some JNull)"
    by (simp add: ex_second_selected_def ex_first_snapshot_def selectProject_subscription
          onProjectsSnapshot_subscription ex_signed_in_subscription)
  have "selectedProjectId ex_next_snapshot = fromDoc (hd [ex_project1, ex_project2]) (js ''id'')"
    unfolding ex_next_snapshot_def
    by (rule first_snapshot_selects [OF sub]) simp_all
  then have 2: "selectedProjectId ex_next_snapshot = Some (JStr (js ''p1''))"
    by (simp add: fromDoc_def ex_project1_def js_def)
  from 1 2 show ?thesis by simp
qed

section \<open>Properties of appending an interaction\<close>

lemma convertItem_wellformed:
  assumes "fs (js ''data'') = Some (JTime t)"
  shows "convertItem (JObj fs) = Some (JObj fs)"
proof -
  have "fs(js ''data'' \<mapsto> JTime t) = fs"
    using assms by (rule map_upd_triv)
  with assms show ?thesis by (simp add: convertItem_def)
qed

lemma those_map_id:
  "(\<And>x. x \<in> set xs \<Longrightarrow> f x = Some x) \<Longrightarrow> those (map f xs) = Some xs"
  by (induction xs) simp_all

text \<open>
  When the investor of the profile carries the history that the store holds, and the
  items are interactions, an accepted submission replaces the stored history by that
  history followed by the new interaction, which is then the first one displayed.
\<close>

lemma handleAddInteraction_appends:
  assumes guard: "trim notes \<noteq> []" "truthy u" "truthy p" "\<not> master"
    and ref: "pipelineRef appId u p (investor (js ''id'')) = Some ref"
    and stored: "st ref = Some entry"
    and hist: "investor (js ''historicoDeInteracoes'') = Some (JArr items)"
    and items: "\<forall>item \<in> set items. \<exists>fs t. item = JObj fs \<and> fs (js ''data'') = Some (JTime t)"
  shows "fst (handleAddInteraction True date appId u p master investor ty notes st) =
           st(ref \<mapsto> entry ++
                [js ''historicoDeInteracoes'' \<mapsto>
                   JArr (items @ [JObj [js ''data'' \<mapsto> JTime date, js ''tipo'' \<mapsto> JStr ty,
                                       js ''anotacoes'' \<mapsto> JStr notes]])])"
proof -
  have "those (map convertItem items) = Some items"
  proof (rule those_map_id)
    fix x assume "x \<in> set items"
    with items obtain fs t where "x = JObj fs" "fs (js ''data'') = Some (JTime t)" by blast
    then show "convertItem x = Some x" by (simp add: convertItem_wellformed)
  qed
  then have e: "existingInteractions (investor (js ''historicoDeInteracoes'')) = Some items"
    by (simp add: existingInteractions_def hist)
  show ?thesis
    using guard by (simp add: handleAddInteraction_def e ref updateDoc_def stored Let_def)
qed

lemma displayed_after_append:
  "displayedHistory (entry ++ [js ''historicoDeInteracoes'' \<mapsto> JArr (items @ [new])]) =
     new # rev items"
  by (simp add: displayedHistory_def)

text \<open>The session on the profile, step by step.\<close>

lemma ex_entry_path_ref:
  "pipelineRef (js ''app'') (Some (JStr (js ''u1''))) (Some (JStr (js ''p1'')))
     (Some (JStr (js ''i1''))) = Some ex_entry_path"
  unfolding ex_entry_path_def by (rule pipelineRef_strings) simp_all

lemma ex_master_id: "strict_eq_str (ex_master (js ''id'')) (js ''i1'')"
  by (simp add: ex_master_def strict_eq_str_def js_def)

lemma ex_join:
  "pipelineJoin [ex_master] [\<lparr>doc_id = js ''i1'', doc_data = e\<rparr>] =
     [[js ''id'' \<mapsto> JStr (js ''i1'')] ++ ex_master ++ e]"
  by (simp add: pipelineJoin_def joinDoc_def ex_master_id)

lemma ex_profile_open_investor:
  "selectedInvestor ex_profile_open =
     Some ([js ''id'' \<mapsto> JStr (js ''i1'')] ++ ex_master ++ newPipelineEntry)"
  by (simp add: ex_profile_open_def ex_open_first_def onPipelineSnapshot_def
        ex_pipeline_snapshot_def ex_pipeline_store_def ex_project_open_def ex_join
        handleSelectInvestor_def)

lemma ex_profile_open_context:
  "userId ex_profile_open = Some (JStr (js ''u1''))"
  "selectedProjectId ex_profile_open = Some (JStr (js ''p1''))"
  "isMasterProfile ex_profile_open = False"
  by (simp_all add: ex_profile_open_def ex_open_first_def onPipelineSnapshot_def
        ex_pipeline_snapshot_def ex_pipeline_store_def ex_project_open_def ex_join
        handleSelectInvestor_def initial_state_def)

text \<open>The snapshot after the first write does not change the investor of the profile.\<close>

lemma onPipelineSnapshot_keeps_profile:
  "selectedInvestor (onPipelineSnapshot docs s) = selectedInvestor s"
  "userId (onPipelineSnapshot docs s) = userId s"
  "selectedProjectId (onPipelineSnapshot docs s) = selectedProjectId s"
  "isMasterProfile (onPipelineSnapshot docs s) = isMasterProfile s"
  by (simp_all add: onPipelineSnapshot_def)

lemma ex_investor_fields:
  "([js ''id'' \<mapsto> JStr (js ''i1'')] ++ ex_master ++ newPipelineEntry) (js ''id'') =
     Some (JStr (js ''i1''))"
  "([js ''id'' \<mapsto> JStr (js ''i1'')] ++ ex_master ++ newPipelineEntry) (js ''historicoDeInteracoes'') =
     Some (JArr [])"
  by (simp_all add: ex_master_def newPipelineEntry_def js_def map_add_def)

lemma ex_notes: "trim (js ''first'') \<noteq> []" "trim (js ''second'') \<noteq> []"
  by (simp_all add: js_def trim_def js_white_space_def)

lemma ex_submit:
  assumes "st ex_entry_path = Some entry" and "trim notes \<noteq> []"
  shows "fst (handleAddInteraction True date (js ''app'') (Some (JStr (js ''u1'')))
                (Some (JStr (js ''p1''))) False
                ([js ''id'' \<mapsto> JStr (js ''i1'')] ++ ex_master ++ newPipelineEntry)
                (js ''Email'') notes st) =
           st(ex_entry_path \<mapsto> entry ++
                [js ''historicoDeInteracoes'' \<mapsto>
                   JArr ([] @ [JObj [js ''data'' \<mapsto> JTime date, js ''tipo'' \<mapsto> JStr (js ''Email''),
                                    js ''anotacoes'' \<mapsto> JStr notes]])])"
proof (rule handleAddInteraction_appends)
  show "pipelineRef (js ''app'') (Some (JStr (js ''u1''))) (Some (JStr (js ''p1'')))
          (([js ''id'' \<mapsto> JStr (js ''i1'')] ++ ex_master ++ newPipelineEntry) (js ''id'')) =
        Some ex_entry_path"
    unfolding ex_investor_fields by (rule ex_entry_path_ref)
  show "([js ''id'' \<mapsto> JStr (js ''i1'')] ++ ex_master ++ newPipelineEntry)
          (js ''historicoDeInteracoes'') = Some (JArr [])"
    by (rule ex_investor_fields)
qed (use assms in simp_all)

lemma ex_after_first_entry:
  "ex_after_first =
     ex_pipeline_store(ex_entry_path \<mapsto> newPipelineEntry ++
        [js ''historicoDeInteracoes'' \<mapsto> JArr [ex_interaction1]])"
proof -
  have s: "ex_pipeline_store ex_entry_path = Some newPipelineEntry"
    by (simp add: ex_pipeline_store_def)
  show ?thesis
    unfolding ex_after_first_def submitInteraction_def ex_profile_open_investor
      ex_profile_open_context option.case
    by (simp only: ex_submit [of ex_pipeline_store newPipelineEntry "js ''first''" 1000, OF s ex_notes(1)]
          append_Nil ex_interaction1_def)
qed

lemma ex_after_second_entry:
  "ex_after_second =
     ex_after_first(ex_entry_path \<mapsto>
        (newPipelineEntry ++ [js ''historicoDeInteracoes'' \<mapsto> JArr [ex_interaction1]]) ++
        [js ''historicoDeInteracoes'' \<mapsto> JArr [ex_interaction2]])"
proof -
  have s: "ex_after_first ex_entry_path =
             Some (newPipelineEntry ++ [js ''historicoDeInteracoes'' \<mapsto> JArr [ex_interaction1]])"
    unfolding ex_after_first_entry by simp
  show ?thesis
    unfolding ex_after_second_def submitInteraction_def ex_profile_refreshed_def
      onPipelineSnapshot_keeps_profile ex_profile_open_investor ex_profile_open_context option.case
    by (simp only: ex_submit [of ex_after_first _ "js ''second''" 2000, OF s ex_notes(2)]
          append_Nil ex_interaction2_def)
qed

text \<open>
  Claim C9 on the code. The first interaction is stored; after the second submission
  from the same open profile the stored history holds the second interaction only: the
  first one is gone.
\<close>

theorem second_interaction_drops_first:
  "history_at ex_after_first ex_entry_path = Some (JArr [ex_interaction1])
   \<and> history_at ex_after_second ex_entry_path = Some (JArr [ex_interaction2])"
proof -
  have 1: "history_at ex_after_first ex_entry_path = Some (JArr [ex_interaction1])"
    unfolding ex_after_first_entry by (simp add: history_at_def)
  have 2: "history_at ex_after_second ex_entry_path = Some (JArr [ex_interaction2])"
    unfolding ex_after_second_entry by (simp add: history_at_def)
  from 1 2 show ?thesis by simp
qed

end
